theory Spec2Isabelle
  imports Complex_Main
begin

section \<open>Signature injection engine: the sign-pdf route and the audit schema\<close>

text \<open>
  A shallow embedding of \<^verbatim>\<open>routes/signPdf.js\<close> and \<^verbatim>\<open>models/Audit.js\<close>.

  \<^item> Request data is JSON as \<^verbatim>\<open>express.json()\<close> parses it: the datatype \<open>jsval\<close>.
  \<^item> A finite JavaScript number is a real number. \<open>NaN\<close> and the infinities are not values of
    the model. A number of the request is the double that parsing the body yields. The result
    of every arithmetic operation of the renderer is rounded to IEEE-754 binary64, and a
    decimal literal of the source stands for the double nearest to it. The one exception is
    the page index \<^verbatim>\<open>Math.min(page - 1, pages.length - 1)\<close>, which is written without rounding:
    for a double \<open>page \<ge> 1\<close> its value in binary64 is the exact one (lemma
    \<open>pageIndex_binary64\<close>).
  \<^item> An exception is a value: functions that can throw return \<open>error + 'a\<close>, and the
    \<^verbatim>\<open>try\<close>/\<^verbatim>\<open>catch\<close> blocks of the route are case distinctions on it.
  \<^item> The libraries the route calls (the file system, pdf-lib, the hash helper, the clock,
    Mongoose's casts) are the fields of the record \<open>env\<close>; every theorem holds for all of them.
    Writing a file and storing a validated document are taken to succeed.
  \<^item> What the route does to the world is the list of its effects, returned with the response.
\<close>

subsection \<open>JSON values\<close>

datatype jsval =
    JUndefined
  | JNull
  | JBool bool
  | JNum real
  | JStr string
  | JArr "jsval list"
  | JObj "(string \<times> jsval) list"

text \<open>\<^verbatim>\<open>!!v\<close>: the falsy values are undefined, null, false, 0 and the empty string.\<close>

fun truthy :: "jsval \<Rightarrow> bool" where
  "truthy JUndefined = False"
| "truthy JNull = False"
| "truthy (JBool b) = b"
| "truthy (JNum r) = (r \<noteq> 0)"
| "truthy (JStr s) = (s \<noteq> [])"
| "truthy (JArr vs) = True"
| "truthy (JObj ps) = True"

text \<open>\<^verbatim>\<open>typeof v\<close>: null and arrays are objects.\<close>

fun typeof :: "jsval \<Rightarrow> string" where
  "typeof JUndefined = ''undefined''"
| "typeof JNull = ''object''"
| "typeof (JBool b) = ''boolean''"
| "typeof (JNum r) = ''number''"
| "typeof (JStr s) = ''string''"
| "typeof (JArr vs) = ''object''"
| "typeof (JObj ps) = ''object''"

text \<open>
  \<^verbatim>\<open>v.k\<close> on a value that is neither null nor undefined, for the property names this program
  reads (\<open>pdfId\<close>, \<open>fields\<close>, \<open>signatureImage\<close>, \<open>pdfCoordinates\<close>, \<open>type\<close>, \<open>value\<close>, \<open>x\<close>,
  \<open>y\<close>, \<open>width\<close>, \<open>height\<close>, \<open>page\<close>): an object yields the property or undefined; arrays,
  strings, numbers and booleans have none of these names. The first binding of a key in the
  list is the object's property.
\<close>

fun js_get :: "jsval \<Rightarrow> string \<Rightarrow> jsval" where
  "js_get (JObj ps) k = (case map_of ps k of None \<Rightarrow> JUndefined | Some v \<Rightarrow> v)"
| "js_get v k = JUndefined"

text \<open>The number behind a value; read only behind a \<^verbatim>\<open>typeof v === 'number'\<close> test.\<close>

fun num_of :: "jsval \<Rightarrow> real" where
  "num_of (JNum r) = r"
| "num_of v = 0"

subsection \<open>Coordinate validation (signPdf.js, lines 26-36)\<close>

definition validateCoordinates :: "jsval \<Rightarrow> bool" where
  "validateCoordinates coordinates =
     (if \<not> truthy coordinates \<or> typeof coordinates \<noteq> ''object'' then False
      else
        let x = js_get coordinates ''x'';
            y = js_get coordinates ''y'';
            width = js_get coordinates ''width'';
            height = js_get coordinates ''height'';
            page = js_get coordinates ''page''
        in typeof x = ''number'' \<and> num_of x \<ge> 0 \<and>
           typeof y = ''number'' \<and> num_of y \<ge> 0 \<and>
           typeof width = ''number'' \<and> num_of width > 0 \<and>
           typeof height = ''number'' \<and> num_of height > 0 \<and>
           typeof page = ''number'' \<and> num_of page \<ge> 1)"

subsection \<open>IEEE-754 binary64 rounding\<close>

text \<open>
  The host evaluates every arithmetic operation in binary64 with round-to-nearest, ties to
  even: \<open>binary64 v\<close> is the multiple of the quantum of the exact value \<open>v\<close> that is nearest to
  it.
  The quantum of \<open>v\<close> is the power \<open>q\<close> of two with \<open>2^52 * q \<le> \<bar>v\<bar> < 2^53 * q\<close>, and never less than
  \<open>2^-1074\<close>, the quantum of the subnormal numbers. Overflow to infinity is not modelled.
\<close>

definition round_half_even :: "real \<Rightarrow> int" where
  "round_half_even v =
     (let f = \<lfloor>v\<rfloor>; d = v - real_of_int f
      in if d < 1 / 2 then f
         else if 1 / 2 < d then f + 1
         else if even f then f else f + 1)"

text \<open>The search for the quantum of \<open>v > 0\<close> from \<open>q\<close>, in at most the given number of steps.\<close>

fun quantum :: "nat \<Rightarrow> real \<Rightarrow> real \<Rightarrow> real" where
  "quantum 0 q v = q"
| "quantum (Suc n) q v =
     (if v < 2 ^ 52 * q then quantum n (q / 2) v
      else if 2 ^ 53 * q \<le> v then quantum n (2 * q) v
      else q)"

definition binary64 :: "real \<Rightarrow> real" where
  "binary64 v =
     (if v = 0 then 0
      else let q = quantum 1074 1 \<bar>v\<bar>
           in sgn v * real_of_int (round_half_even (\<bar>v\<bar> / q)) * q)"

subsection \<open>Aspect fitting (signPdf.js, lines 39-57)\<close>

record pdf_image =
  img_width :: real
  img_height :: real

record dims =
  width :: real
  height :: real
  xOffset :: real
  yOffset :: real

text \<open>
  The image is pdf-lib's embedded image, whose \<open>width\<close> and \<open>height\<close> are its size in pixels.
\<close>

definition calculateImageDimensions :: "pdf_image \<Rightarrow> real \<Rightarrow> real \<Rightarrow> dims" where
  "calculateImageDimensions img maxWidth maxHeight =
     (let imageAspectRatio = binary64 (img_width img / img_height img);
          boxAspectRatio = binary64 (maxWidth / maxHeight);
          w = (if imageAspectRatio > boxAspectRatio then maxWidth
               else binary64 (maxHeight * imageAspectRatio));
          h = (if imageAspectRatio > boxAspectRatio then binary64 (maxWidth / imageAspectRatio)
               else maxHeight)
      in \<lparr> width = w, height = h,
           xOffset = binary64 (binary64 (maxWidth - w) / 2),
           yOffset = binary64 (binary64 (maxHeight - h) / 2) \<rparr>)"

subsection \<open>Pages and drawing operations\<close>

datatype error =
    TypeError         \<comment> \<open>a property read or a method call on null or undefined\<close>
  | EmbedError        \<comment> \<open>pdf-lib rejects the image bytes\<close>
  | EncodingError     \<comment> \<open>the font of the page cannot encode a character of the text\<close>
  | PdfLoadError      \<comment> \<open>pdf-lib rejects the source document\<close>
  | ValidationError   \<comment> \<open>Mongoose rejects the document at save\<close>

datatype color = rgb real real real

text \<open>
  One constructor for each pdf-lib page method the route calls, with the options it passes.
  A page is the list of operations drawn on it, oldest first.
\<close>

datatype draw_op =
    DrawImage pdf_image real real real real real
      \<comment> \<open>image, x, y, width, height, opacity\<close>
  | DrawRectangle real real real real color real color
      \<comment> \<open>x, y, width, height, borderColor, borderWidth, color\<close>
  | DrawText string real real real color
      \<comment> \<open>text, x, y, size, color\<close>
  | DrawCircle real real real color real color
      \<comment> \<open>x, y, size, borderColor, borderWidth, color\<close>

type_synonym page = "draw_op list"

text \<open>\<^verbatim>\<open>Math.min(page - 1, pages.length - 1)\<close> (line 97).\<close>

definition pageIndex :: "real \<Rightarrow> nat \<Rightarrow> real" where
  "pageIndex page n = min (page - 1) (real n - 1)"

text \<open>
  \<^verbatim>\<open>pages[pageIndex]\<close> (line 98). The page object is referred to by its position in \<open>pages\<close>;
  an index that is not one of \<open>0, \<dots>, pages.length - 1\<close> yields undefined, here \<open>None\<close>.
\<close>

definition page_at :: "nat \<Rightarrow> real \<Rightarrow> nat option" where
  "page_at n i = (if 0 \<le> i \<and> i < real n \<and> real_of_int \<lfloor>i\<rfloor> = i then Some (nat \<lfloor>i\<rfloor>) else None)"

text \<open>
  \<^verbatim>\<open>drawImage\<close>, \<^verbatim>\<open>drawRectangle\<close> or \<^verbatim>\<open>drawCircle\<close> called on \<open>pdfPage\<close> with numeric options:
  on a page it appends the operation, on undefined it throws a TypeError. What pdf-lib does
  with the operation is outside the model.
\<close>

definition draw :: "nat option \<Rightarrow> draw_op \<Rightarrow> page list \<Rightarrow> error + page list" where
  "draw pdfPage op pages =
     (case pdfPage of
        None \<Rightarrow> Inl TypeError
      | Some k \<Rightarrow> Inr (pages[k := pages ! k @ [op]]))"

definition and_then :: "error + 'a \<Rightarrow> ('a \<Rightarrow> error + 'b) \<Rightarrow> error + 'b" where
  "and_then r f = (case r of Inl e \<Rightarrow> Inl e | Inr v \<Rightarrow> f v)"

subsection \<open>The environment of the route\<close>

type_synonym bytes = "nat list"

record env =
  pathExists :: bool
    \<comment> \<open>\<^verbatim>\<open>fs.pathExists\<close> of \<^verbatim>\<open>public/sample.pdf\<close>\<close>
  readFile :: bytes
    \<comment> \<open>\<^verbatim>\<open>fs.readFile\<close> of \<^verbatim>\<open>public/sample.pdf\<close>\<close>
  calculateSHA256 :: "bytes \<Rightarrow> string"
    \<comment> \<open>\<^verbatim>\<open>utils/hash.js\<close>\<close>
  loadPages :: "bytes \<Rightarrow> nat option"
    \<comment> \<open>\<^verbatim>\<open>PDFDocument.load(bytes)\<close> and \<^verbatim>\<open>getPages().length\<close>; \<open>None\<close> when load throws\<close>
  embedPng :: "string \<Rightarrow> pdf_image option"
    \<comment> \<open>\<^verbatim>\<open>pdfDoc.embedPng(Buffer.from(base64Data, 'base64'))\<close>; \<open>None\<close> when it throws\<close>
  embedJpg :: "string \<Rightarrow> pdf_image option"
    \<comment> \<open>\<^verbatim>\<open>pdfDoc.embedJpg(Buffer.from(base64Data, 'base64'))\<close>; \<open>None\<close> when it throws\<close>
  encodeText :: "string \<Rightarrow> bool"
    \<comment> \<open>\<^verbatim>\<open>drawText\<close> of a text with a character outside printable ASCII: whether pdf-lib
        lays it out and encodes it in the font of the page; false when it throws\<close>
  toLocaleDateString :: string
    \<comment> \<open>\<^verbatim>\<open>new Date().toLocaleDateString()\<close>\<close>
  pdfDoc_save :: "bytes \<Rightarrow> page list \<Rightarrow> bytes"
    \<comment> \<open>\<^verbatim>\<open>pdfDoc.save()\<close>: the loaded document with the operations drawn on its pages\<close>
  dateNow :: nat
    \<comment> \<open>\<^verbatim>\<open>Date.now()\<close> (line 165)\<close>
  newDate :: nat
    \<comment> \<open>\<^verbatim>\<open>new Date()\<close> (line 186)\<close>
  newObjectId :: string
    \<comment> \<open>the \<^verbatim>\<open>_id\<close> Mongoose gives a new document\<close>
  castString :: "jsval \<Rightarrow> string option"
    \<comment> \<open>Mongoose's String cast of a value that is not a string, null or undefined;
        \<open>None\<close> is a CastError\<close>
  castNumber :: "jsval \<Rightarrow> real option"
    \<comment> \<open>Mongoose's Number cast of a value that is not a number, null or undefined\<close>

subsection \<open>Drawing text\<close>

text \<open>
  \<^verbatim>\<open>pdfPage.drawText(text, options)\<close> with no font set on the page: pdf-lib asserts that \<open>text\<close>
  is a string and throws a TypeError otherwise, then encodes the text in the standard font
  Helvetica, whose WinAnsi encoding has every printable ASCII character (codes 32 to 126) and
  throws for a character that it lacks.
\<close>

definition printable :: "char \<Rightarrow> bool" where
  "printable c = (32 \<le> (of_char c :: nat) \<and> (of_char c :: nat) \<le> 126)"

definition encodable :: "env \<Rightarrow> string \<Rightarrow> bool" where
  "encodable e s = (list_all printable s \<or> encodeText e s)"

definition drawText ::
  "env \<Rightarrow> nat option \<Rightarrow> jsval \<Rightarrow> real \<Rightarrow> real \<Rightarrow> real \<Rightarrow> color \<Rightarrow> page list \<Rightarrow> error + page list" where
  "drawText e pdfPage text x y fontSize c pages =
     (case pdfPage of
        None \<Rightarrow> Inl TypeError
      | Some k \<Rightarrow>
          (case text of
             JStr s \<Rightarrow>
               if encodable e s then Inr (pages[k := pages ! k @ [DrawText s x y fontSize c]])
               else Inl EncodingError
           | _ \<Rightarrow> Inl TypeError))"

subsection \<open>Rendering one field (signPdf.js, lines 92-160)\<close>

definition starts_with :: "string \<Rightarrow> string \<Rightarrow> bool" where
  "starts_with p s = (take (length p) s = p)"

text \<open>\<^verbatim>\<open>signatureImage.replace(/^data:image\/(png|jpeg);base64,/, '')\<close> (line 104).\<close>

definition strip_data_uri :: "string \<Rightarrow> string" where
  "strip_data_uri s =
     (if starts_with ''data:image/png;base64,'' s then drop (length ''data:image/png;base64,'') s
      else if starts_with ''data:image/jpeg;base64,'' s then drop (length ''data:image/jpeg;base64,'') s
      else s)"

text \<open>
  Lines 104-108, the first statements of the \<^verbatim>\<open>try\<close> block. A truthy value that is not a
  string has no \<^verbatim>\<open>replace\<close> method: the call throws a TypeError.
\<close>

definition embed_signature :: "env \<Rightarrow> jsval \<Rightarrow> error + pdf_image" where
  "embed_signature e signatureImage =
     (case signatureImage of
        JStr s \<Rightarrow>
          (let base64Data = strip_data_uri s;
               isPng = starts_with ''data:image/png'' s
           in case (if isPng then embedPng e base64Data else embedJpg e base64Data) of
                None \<Rightarrow> Inl EmbedError
              | Some img \<Rightarrow> Inr img)
      | _ \<Rightarrow> Inl TypeError)"

definition nullish :: "jsval \<Rightarrow> bool" where
  "nullish v = (v = JUndefined \<or> v = JNull)"

text \<open>
  The bodies of the \<^verbatim>\<open>switch\<close>, one definition for each \<^verbatim>\<open>case\<close>. \<open>pdfPage\<close> is the page
  looked up for the field and \<open>x\<close>, \<open>y\<close>, \<open>w\<close>, \<open>h\<close> are its box.

  \<^verbatim>\<open>case 'signature'\<close> (lines 101-133): an exception of the \<^verbatim>\<open>try\<close> block, from the embedding
  or from \<^verbatim>\<open>drawImage\<close>, is caught and the placeholder is drawn instead; an exception of the
  \<^verbatim>\<open>catch\<close> block leaves the loop.
\<close>

definition signature_case ::
  "env \<Rightarrow> jsval \<Rightarrow> nat option \<Rightarrow> real \<Rightarrow> real \<Rightarrow> real \<Rightarrow> real \<Rightarrow> page list \<Rightarrow> error + page list" where
  "signature_case e signatureImage pdfPage x y w h pages =
     (if truthy signatureImage then
        (case and_then (embed_signature e signatureImage) (\<lambda>img.
                let d = calculateImageDimensions img w h
                in draw pdfPage
                     (DrawImage img (binary64 (x + xOffset d)) (binary64 (y + yOffset d))
                        (width d) (height d) (binary64 0.9))
                     pages) of
           Inr pages' \<Rightarrow> Inr pages'
         | Inl imgErr \<Rightarrow>
             and_then
               (draw pdfPage
                  (DrawRectangle x y w h (rgb 1 0 0) 1 (rgb 1 (binary64 0.9) (binary64 0.9))) pages)
               (drawText e pdfPage (JStr ''SIGNATURE'')
                  (binary64 (x + 5)) (binary64 (binary64 (y + binary64 (h / 2)) - 6)) 10 (rgb 1 0 0)))
      else Inr pages)"

text \<open>
  \<^verbatim>\<open>case 'text'\<close> (lines 135-140). The value is handed to \<^verbatim>\<open>drawText\<close> as it is, after the
  rectangle has been drawn.
\<close>

definition text_case ::
  "env \<Rightarrow> jsval \<Rightarrow> nat option \<Rightarrow> real \<Rightarrow> real \<Rightarrow> real \<Rightarrow> real \<Rightarrow> page list \<Rightarrow> error + page list" where
  "text_case e value pdfPage x y w h pages =
     (if truthy value then
        and_then
          (draw pdfPage (DrawRectangle x y w h (rgb 0 0 0) (binary64 0.5) (rgb 1 1 1)) pages)
          (drawText e pdfPage value
             (binary64 (x + 5)) (binary64 (binary64 (y + binary64 (h / 2)) - 6)) 12 (rgb 0 0 0))
      else Inr pages)"

text \<open>\<^verbatim>\<open>case 'date'\<close> (lines 142-146).\<close>

definition date_case ::
  "env \<Rightarrow> nat option \<Rightarrow> real \<Rightarrow> real \<Rightarrow> real \<Rightarrow> real \<Rightarrow> page list \<Rightarrow> error + page list" where
  "date_case e pdfPage x y w h pages =
     (let currentDate = toLocaleDateString e
      in and_then
           (draw pdfPage
              (DrawRectangle x y w h (rgb (binary64 0.2) (binary64 0.4) (binary64 0.8)) 1
                 (rgb (binary64 0.95) (binary64 0.95) 1)) pages)
           (drawText e pdfPage (JStr currentDate)
              (binary64 (x + 5)) (binary64 (binary64 (y + binary64 (h / 2)) - 6)) 10
              (rgb (binary64 0.2) (binary64 0.4) (binary64 0.8))))"

text \<open>\<^verbatim>\<open>case 'radio'\<close> (lines 148-153).\<close>

definition radio_case ::
  "nat option \<Rightarrow> real \<Rightarrow> real \<Rightarrow> real \<Rightarrow> real \<Rightarrow> page list \<Rightarrow> error + page list" where
  "radio_case pdfPage x y w h pages =
     (let centerX = binary64 (x + binary64 (w / 2));
          centerY = binary64 (y + binary64 (h / 2));
          radius = binary64 (binary64 (min w h / 2) - 2)
      in draw pdfPage (DrawCircle centerX centerY radius (rgb 0 0 0) 1 (rgb 1 1 1)) pages)"

text \<open>\<^verbatim>\<open>case 'image'\<close> (lines 155-158).\<close>

definition image_case ::
  "env \<Rightarrow> nat option \<Rightarrow> real \<Rightarrow> real \<Rightarrow> real \<Rightarrow> real \<Rightarrow> page list \<Rightarrow> error + page list" where
  "image_case e pdfPage x y w h pages =
     and_then
       (draw pdfPage
          (DrawRectangle x y w h (rgb (binary64 0.8) (binary64 0.2) (binary64 0.8)) 1
             (rgb 1 (binary64 0.95) 1)) pages)
       (drawText e pdfPage (JStr ''[IMAGE]'')
          (binary64 (binary64 (x + binary64 (w / 2)) - 20))
          (binary64 (binary64 (y + binary64 (h / 2)) - 6)) 10
          (rgb (binary64 0.8) (binary64 0.2) (binary64 0.8)))"

text \<open>
  The body of the \<^verbatim>\<open>for\<close> loop (lines 93-159). Destructuring a field that is null or undefined
  throws. The five coordinates are read as numbers: the route renders only after every field
  has passed \<open>validateCoordinates\<close>. The \<^verbatim>\<open>switch\<close> has no default: any other type draws
  nothing.
\<close>

definition render_field :: "env \<Rightarrow> jsval \<Rightarrow> page list \<Rightarrow> jsval \<Rightarrow> error + page list" where
  "render_field e signatureImage pages field =
     (if nullish field then Inl TypeError
      else
        let pdfCoordinates = js_get field ''pdfCoordinates'';
            type = js_get field ''type'';
            value = js_get field ''value''
        in
        if \<not> truthy pdfCoordinates then Inr pages
        else
          let x = num_of (js_get pdfCoordinates ''x'');
              y = num_of (js_get pdfCoordinates ''y'');
              w = num_of (js_get pdfCoordinates ''width'');
              h = num_of (js_get pdfCoordinates ''height'');
              page = num_of (js_get pdfCoordinates ''page'');
              pageIndex = pageIndex page (length pages);
              pdfPage = page_at (length pages) pageIndex
          in
          if type = JStr ''signature'' then signature_case e signatureImage pdfPage x y w h pages
          else if type = JStr ''text'' then text_case e value pdfPage x y w h pages
          else if type = JStr ''date'' then date_case e pdfPage x y w h pages
          else if type = JStr ''radio'' then radio_case pdfPage x y w h pages
          else if type = JStr ''image'' then image_case e pdfPage x y w h pages
          else Inr pages)"

text \<open>The loop: the first exception leaves it.\<close>

fun render_fields :: "env \<Rightarrow> jsval \<Rightarrow> page list \<Rightarrow> jsval list \<Rightarrow> error + page list" where
  "render_fields e signatureImage pages [] = Inr pages"
| "render_fields e signatureImage pages (field # rest) =
     and_then (render_field e signatureImage pages field)
       (\<lambda>pages'. render_fields e signatureImage pages' rest)"

subsection \<open>The audit model (Audit.js)\<close>

record coordinates =
  coord_x :: real
  coord_y :: real
  coord_width :: real
  coord_height :: real
  coord_page :: real

text \<open>A stored \<open>value\<close> is a string or null (\<open>None\<close>).\<close>

record audit_field =
  field_type :: string
  field_coordinates :: coordinates
  field_value :: "string option"

record metadata =
  totalFields :: nat
  hasSignature :: bool
  pageCount :: real

record audit =
  audit_id :: string
  audit_pdfId :: string
  audit_originalHash :: string
  audit_signedHash :: string
  audit_fields :: "audit_field list"
  audit_timestamp :: nat
  audit_ipAddress :: string
  audit_userAgent :: string
  audit_metadata :: metadata

text \<open>
  The pre-save middleware (lines 55-62). \<^verbatim>\<open>Math.max(...pages, 1)\<close> is the maximum of the pages
  and 1.
\<close>

definition pre_save :: "audit \<Rightarrow> audit" where
  "pre_save this =
     this\<lparr> audit_metadata :=
       \<lparr> totalFields = length (audit_fields this),
         hasSignature = list_ex (\<lambda>f. field_type f = ''signature'') (audit_fields this),
         pageCount = foldr max (map (\<lambda>f. coord_page (field_coordinates f)) (audit_fields this)) 1 \<rparr> \<rparr>"

text \<open>
  The validators of the schemas (lines 3-52) on a document whose paths have been cast: the
  \<open>enum\<close> of \<open>type\<close>, \<open>min: 1\<close> of \<open>page\<close>, and \<open>required\<close>, which a string path fails when it is
  missing or empty (a missing string path is held as the empty string).
\<close>

definition field_types :: "string list" where
  "field_types = [''signature'', ''text'', ''date'', ''radio'', ''image'']"

definition valid_field :: "audit_field \<Rightarrow> bool" where
  "valid_field f = (field_type f \<in> set field_types \<and> coord_page (field_coordinates f) \<ge> 1)"

definition validate :: "audit \<Rightarrow> bool" where
  "validate a =
     (audit_pdfId a \<noteq> [] \<and> audit_originalHash a \<noteq> [] \<and> audit_signedHash a \<noteq> [] \<and>
      list_all valid_field (audit_fields a))"

text \<open>
  \<^verbatim>\<open>audit.save()\<close>: Mongoose validates the document before it runs the pre-save middleware
  of the schema, and stores the document the middleware leaves.
\<close>

definition audit_save :: "audit \<Rightarrow> error + audit" where
  "audit_save a = (if validate a then Inr (pre_save a) else Inl ValidationError)"

text \<open>
  The casts of \<^verbatim>\<open>new Audit(...)\<close>. Mongoose keeps a cast error in the document and reports it
  at save; nothing happens between the two in the route, so the error is returned here. A
  string path keeps a string as it is and leaves every other value to Mongoose's cast.
\<close>

definition string_path :: "env \<Rightarrow> jsval \<Rightarrow> error + string" where
  "string_path e v =
     (case v of
        JUndefined \<Rightarrow> Inr []
      | JNull \<Rightarrow> Inr []
      | JStr s \<Rightarrow> Inr s
      | _ \<Rightarrow> (case castString e v of None \<Rightarrow> Inl ValidationError | Some s \<Rightarrow> Inr s))"

text \<open>\<^verbatim>\<open>value: { type: String, default: '' }\<close>: the default replaces undefined only.\<close>

definition value_path :: "env \<Rightarrow> jsval \<Rightarrow> error + string option" where
  "value_path e v =
     (case v of
        JUndefined \<Rightarrow> Inr (Some [])
      | JNull \<Rightarrow> Inr None
      | JStr s \<Rightarrow> Inr (Some s)
      | _ \<Rightarrow> (case castString e v of None \<Rightarrow> Inl ValidationError | Some s \<Rightarrow> Inr (Some s)))"

text \<open>
  The paths of the coordinate schema are required numbers. Coordinates that are not an object
  fail the cast; the route hands over coordinates that passed \<open>validateCoordinates\<close>.
\<close>

definition number_path :: "env \<Rightarrow> jsval \<Rightarrow> error + real" where
  "number_path e v =
     (case v of
        JUndefined \<Rightarrow> Inl ValidationError
      | JNull \<Rightarrow> Inl ValidationError
      | JNum r \<Rightarrow> Inr r
      | _ \<Rightarrow> (case castNumber e v of None \<Rightarrow> Inl ValidationError | Some r \<Rightarrow> Inr r))"

definition coordinates_path :: "env \<Rightarrow> jsval \<Rightarrow> error + coordinates" where
  "coordinates_path e c =
     (case c of
        JObj ps \<Rightarrow>
          and_then (number_path e (js_get c ''x'')) (\<lambda>vx.
          and_then (number_path e (js_get c ''y'')) (\<lambda>vy.
          and_then (number_path e (js_get c ''width'')) (\<lambda>vw.
          and_then (number_path e (js_get c ''height'')) (\<lambda>vh.
          and_then (number_path e (js_get c ''page'')) (\<lambda>vp.
            Inr \<lparr> coord_x = vx, coord_y = vy, coord_width = vw, coord_height = vh,
                  coord_page = vp \<rparr>)))))
      | _ \<Rightarrow> Inl ValidationError)"

definition cast_field :: "env \<Rightarrow> jsval \<Rightarrow> error + audit_field" where
  "cast_field e f =
     and_then (string_path e (js_get f ''type'')) (\<lambda>t.
     and_then (coordinates_path e (js_get f ''coordinates'')) (\<lambda>c.
     and_then (value_path e (js_get f ''value'')) (\<lambda>v.
       Inr \<lparr> field_type = t, field_coordinates = c, field_value = v \<rparr>)))"

fun cast_fields :: "env \<Rightarrow> jsval list \<Rightarrow> error + audit_field list" where
  "cast_fields e [] = Inr []"
| "cast_fields e (f # rest) =
     and_then (cast_field e f) (\<lambda>f'.
     and_then (cast_fields e rest) (\<lambda>rest'. Inr (f' # rest')))"

text \<open>The metadata of a new document is the schema's default.\<close>

definition new_Audit ::
  "env \<Rightarrow> jsval \<Rightarrow> string \<Rightarrow> string \<Rightarrow> jsval list \<Rightarrow> nat \<Rightarrow> string \<Rightarrow> string \<Rightarrow> error + audit" where
  "new_Audit e pdfId originalHash signedHash fs timestamp ipAddress userAgent =
     and_then (string_path e pdfId) (\<lambda>pdfId'.
     and_then (cast_fields e fs) (\<lambda>fs'.
       Inr \<lparr> audit_id = newObjectId e,
             audit_pdfId = pdfId',
             audit_originalHash = originalHash,
             audit_signedHash = signedHash,
             audit_fields = fs',
             audit_timestamp = timestamp,
             audit_ipAddress = ipAddress,
             audit_userAgent = userAgent,
             audit_metadata = \<lparr> totalFields = 0, hasSignature = False, pageCount = 1 \<rparr> \<rparr>))"

subsection \<open>The route \<^verbatim>\<open>POST /sign-pdf\<close> (signPdf.js, lines 61-205)\<close>

record request =
  req_body :: "(string \<times> jsval) list"
    \<comment> \<open>the properties of the parsed body\<close>
  req_ip :: string
  req_userAgent :: string

record signed =
  message :: string
  signedPdfUrl :: string
  originalHash :: string
  signedHash :: string
  auditId :: string
  downloadUrl :: string

datatype body =
    ErrorBody string                \<comment> \<open>\<^verbatim>\<open>{ error }\<close>\<close>
  | ErrorDetails string error       \<comment> \<open>\<^verbatim>\<open>{ error, details }\<close>\<close>
  | SuccessBody signed              \<comment> \<open>\<^verbatim>\<open>{ success: true, ... }\<close>\<close>

datatype response = Response (status: nat) (body: body)

text \<open>What a request does to the world outside the process, in order.\<close>

datatype effect =
    PathExists string
  | ReadFile string
  | WriteFile string bytes
  | CopyFile string string
  | AuditSaved audit

definition digit :: "nat \<Rightarrow> char" where
  "digit d = ''0123456789'' ! d"

text \<open>A number in a template literal: its decimal digits.\<close>

function show_nat :: "nat \<Rightarrow> string" where
  "show_nat n = (if n < 10 then [digit n] else show_nat (n div 10) @ [digit (n mod 10)])"
  by pat_completeness auto
termination
  by (relation "measure id") auto

declare show_nat.simps [simp del]

definition isArray :: "jsval \<Rightarrow> bool" where
  "isArray v = (case v of JArr vs \<Rightarrow> True | _ \<Rightarrow> False)"

definition elements :: "jsval \<Rightarrow> jsval list" where
  "elements v = (case v of JArr vs \<Rightarrow> vs | _ \<Rightarrow> [])"

text \<open>
  \<^verbatim>\<open>fields.filter(f => !validateCoordinates(f.pdfCoordinates))\<close> (line 72): reading the property
  of an element that is null or undefined throws.
\<close>

fun invalid_fields :: "jsval list \<Rightarrow> error + jsval list" where
  "invalid_fields [] = Inr []"
| "invalid_fields (f # rest) =
     (if nullish f then Inl TypeError
      else and_then (invalid_fields rest) (\<lambda>rest'.
             Inr (if \<not> validateCoordinates (js_get f ''pdfCoordinates'') then f # rest' else rest')))"

text \<open>The element of \<^verbatim>\<open>fields.map(...)\<close> (lines 181-185).\<close>

definition audit_entry :: "jsval \<Rightarrow> jsval" where
  "audit_entry f =
     JObj [(''type'', js_get f ''type''),
           (''coordinates'', js_get f ''pdfCoordinates''),
           (''value'', if js_get f ''type'' = JStr ''text'' then js_get f ''value'' else JUndefined)]"

definition sign_pdf :: "env \<Rightarrow> request \<Rightarrow> response \<times> effect list" where
  "sign_pdf e req =
     (let pdfId = js_get (JObj (req_body req)) ''pdfId'';
          fields' = js_get (JObj (req_body req)) ''fields'';
          signatureImage = js_get (JObj (req_body req)) ''signatureImage''
      in
      if \<not> truthy pdfId \<or> \<not> isArray fields' then
        (Response 400 (ErrorBody ''Missing required fields: pdfId and fields array are required''), [])
      else
        case invalid_fields (elements fields') of
          Inl err \<Rightarrow> (Response 500 (ErrorDetails ''Failed to sign PDF'' err), [])
        | Inr invalidFields \<Rightarrow>
            if length invalidFields > 0 then
              (Response 400 (ErrorBody
                 (''Invalid coordinates for '' @ show_nat (length invalidFields) @ '' field(s)'')), [])
            else
              let originalPdfPath = ''public/sample.pdf''
              in
              if \<not> pathExists e then
                (Response 404 (ErrorBody ''Sample PDF not found''), [PathExists originalPdfPath])
              else
                let originalPdfBytes = readFile e;
                    originalHash = calculateSHA256 e originalPdfBytes;
                    loaded = [PathExists originalPdfPath, ReadFile originalPdfPath]
                in
                case loadPages e originalPdfBytes of
                  None \<Rightarrow> (Response 500 (ErrorDetails ''Failed to sign PDF'' PdfLoadError), loaded)
                | Some n \<Rightarrow>
                    (case render_fields e signatureImage (replicate n []) (elements fields') of
                       Inl err \<Rightarrow> (Response 500 (ErrorDetails ''Failed to sign PDF'' err), loaded)
                     | Inr pages \<Rightarrow>
                         let signedPdfBytes = pdfDoc_save e originalPdfBytes pages;
                             signedHash = calculateSHA256 e signedPdfBytes;
                             timestamp = dateNow e;
                             signedPdfFilename = ''signed_'' @ show_nat timestamp @ ''.pdf'';
                             signedPdfPath = ''signed-pdfs/'' @ signedPdfFilename;
                             publicPath = ''public/'' @ signedPdfFilename;
                             publicUrl = ''/pdfs/'' @ signedPdfFilename;
                             written = loaded @ [WriteFile signedPdfPath signedPdfBytes,
                                                 CopyFile signedPdfPath publicPath]
                         in
                         case and_then
                                (new_Audit e pdfId originalHash signedHash
                                   (map audit_entry (elements fields'))
                                   (newDate e) (req_ip req) (req_userAgent req))
                                audit_save of
                           Inl err \<Rightarrow> (Response 500 (ErrorDetails ''Failed to sign PDF'' err), written)
                         | Inr audit \<Rightarrow>
                             (Response 200 (SuccessBody
                                \<lparr> message = ''PDF signed successfully'',
                                  signedPdfUrl = publicUrl,
                                  originalHash = originalHash,
                                  signedHash = signedHash,
                                  auditId = audit_id audit,
                                  downloadUrl = ''/api/download/'' @ signedPdfFilename \<rparr>),
                              written @ [AuditSaved audit])))"

subsection \<open>Predicates of the statements\<close>

text \<open>
  The field reaches a call of a drawing method: it has coordinates, and it is a signature
  field of a request with a signature image, a text field with a value, or a date, radio or
  image field.
\<close>

definition draws :: "jsval \<Rightarrow> jsval \<Rightarrow> bool" where
  "draws signatureImage f =
     (truthy (js_get f ''pdfCoordinates'') \<and>
      (js_get f ''type'' = JStr ''signature'' \<and> truthy signatureImage \<or>
       js_get f ''type'' = JStr ''text'' \<and> truthy (js_get f ''value'') \<or>
       js_get f ''type'' = JStr ''date'' \<or>
       js_get f ''type'' = JStr ''radio'' \<or>
       js_get f ''type'' = JStr ''image''))"

text \<open>
  The texts that the field hands to \<^verbatim>\<open>drawText\<close> are accepted by it: the value of a text field
  is a string that can be encoded, and so is the date that a date field prints.
\<close>

definition drawable :: "env \<Rightarrow> jsval \<Rightarrow> bool" where
  "drawable e v = (case v of JStr s \<Rightarrow> encodable e s | _ \<Rightarrow> False)"

definition texts_drawable :: "env \<Rightarrow> jsval \<Rightarrow> bool" where
  "texts_drawable e f =
     ((js_get f ''type'' = JStr ''text'' \<and> truthy (js_get f ''value'') \<longrightarrow>
         drawable e (js_get f ''value'')) \<and>
      (js_get f ''type'' = JStr ''date'' \<longrightarrow> encodable e (toLocaleDateString e)))"

text \<open>
  The unit roundoff of binary64, and the numbers between \<open>2^-m\<close> and \<open>2^m\<close>.
\<close>

definition unit_roundoff :: real where
  "unit_roundoff = 1 / 2 ^ 53"

definition in_range :: "nat \<Rightarrow> real \<Rightarrow> bool" where
  "in_range m v = (1 / 2 ^ m \<le> v \<and> v \<le> 2 ^ m)"

text \<open>The effects of a request that has written its files.\<close>

definition written :: "env \<Rightarrow> page list \<Rightarrow> effect list" where
  "written e pages =
     [PathExists ''public/sample.pdf'', ReadFile ''public/sample.pdf'',
      WriteFile (''signed-pdfs/'' @ ''signed_'' @ show_nat (dateNow e) @ ''.pdf'')
        (pdfDoc_save e (readFile e) pages),
      CopyFile (''signed-pdfs/'' @ ''signed_'' @ show_nat (dateNow e) @ ''.pdf'')
        (''public/'' @ ''signed_'' @ show_nat (dateNow e) @ ''.pdf'')]"

subsection \<open>Example data\<close>

definition demo_audit :: audit where
  "demo_audit =
     \<lparr> audit_id = ''a1'', audit_pdfId = ''doc1'', audit_originalHash = ''0f'', audit_signedHash = ''1e'',
       audit_fields =
         [\<lparr> field_type = ''text'',
            field_coordinates = \<lparr> coord_x = 10, coord_y = 10, coord_width = 100, coord_height = 20, coord_page = 3 \<rparr>,
            field_value = Some ''Alice'' \<rparr>,
          \<lparr> field_type = ''signature'',
            field_coordinates = \<lparr> coord_x = 0, coord_y = 0, coord_width = 50, coord_height = 20, coord_page = 2 \<rparr>,
            field_value = Some [] \<rparr>],
       audit_timestamp = 0, audit_ipAddress = ''::1'', audit_userAgent = ''curl'',
       audit_metadata = \<lparr> totalFields = 7, hasSignature = False, pageCount = 40 \<rparr> \<rparr>"

definition demo_env :: env where
  "demo_env =
     \<lparr> pathExists = True,
       readFile = [37, 80, 68, 70],
       calculateSHA256 = (\<lambda>b. ''sha'' @ show_nat (length b)),
       loadPages = (\<lambda>b. Some 2),
       embedPng = (\<lambda>s. None),
       embedJpg = (\<lambda>s. None),
       encodeText = (\<lambda>s. False),
       toLocaleDateString = ''11/2/2026'',
       pdfDoc_save = (\<lambda>b pages. b @ map length pages),
       dateNow = 1700000000000,
       newDate = 1700000000001,
       newObjectId = ''65f0c0ffee'',
       castString = (\<lambda>v. None),
       castNumber = (\<lambda>v. None) \<rparr>"

definition demo_coordinates :: "real \<Rightarrow> jsval" where
  "demo_coordinates p =
     JObj [(''x'', JNum 10), (''y'', JNum 10), (''width'', JNum 100), (''height'', JNum 20),
           (''page'', JNum p)]"

definition demo_field :: "string \<Rightarrow> jsval \<Rightarrow> real \<Rightarrow> jsval" where
  "demo_field t v p =
     JObj [(''type'', JStr t), (''value'', v), (''pdfCoordinates'', demo_coordinates p)]"

definition demo_request :: "jsval \<Rightarrow> jsval list \<Rightarrow> request" where
  "demo_request signatureImage fs =
     \<lparr> req_body = [(''pdfId'', JStr ''doc1''), (''fields'', JArr fs),
                   (''signatureImage'', signatureImage)],
       req_ip = ''127.0.0.1'',
       req_userAgent = ''curl'' \<rparr>"

definition demo_signature :: jsval where
  "demo_signature = JStr ''data:image/png;base64,AAAA''"

definition demo_fields :: "jsval list" where
  "demo_fields =
     [demo_field ''text'' (JStr ''Alice'') 1, demo_field ''signature'' (JStr ''iVBORw0KGgo'') 2]"

section \<open>Properties\<close>

subsection \<open>Coordinate validation\<close>

lemma typeof_number_iff: "typeof v = ''number'' \<longleftrightarrow> (\<exists>r. v = JNum r)"
  by (cases v) simp_all

text \<open>
  Claim C1. \<open>validateCoordinates\<close> returns true exactly for an object whose properties \<open>x\<close>,
  \<open>y\<close>, \<open>width\<close>, \<open>height\<close> and \<open>page\<close> are all present and numbers, with \<open>x \<ge> 0\<close>, \<open>y \<ge> 0\<close>,
  \<open>width > 0\<close>, \<open>height > 0\<close> and \<open>page \<ge> 1\<close>; for every other value (not an object, a
  property missing or not a number, a bound violated) it returns false.
\<close>

theorem validateCoordinates_iff:
  "validateCoordinates c \<longleftrightarrow>
     (\<exists>ps vx vy vw vh vp.
        c = JObj ps \<and>
        map_of ps ''x'' = Some (JNum vx) \<and>
        map_of ps ''y'' = Some (JNum vy) \<and>
        map_of ps ''width'' = Some (JNum vw) \<and>
        map_of ps ''height'' = Some (JNum vh) \<and>
        map_of ps ''page'' = Some (JNum vp) \<and>
        0 \<le> vx \<and> 0 \<le> vy \<and> 0 < vw \<and> 0 < vh \<and> 1 \<le> vp)"
proof (cases c)
  case (JObj ps)
  show ?thesis
    unfolding validateCoordinates_def Let_def JObj
    by (auto simp: typeof_number_iff split: option.splits)
qed (simp_all add: validateCoordinates_def)

theorem validateCoordinates_iff_witness:
  "validateCoordinates (demo_coordinates 1) \<and>
   \<not> validateCoordinates (demo_coordinates 0) \<and>
   \<not> validateCoordinates
      (JObj [(''x'', JNum 10), (''y'', JNum 10), (''width'', JNum 100), (''height'', JNum 20),
             (''page'', JStr ''1'')]) \<and>
   \<not> validateCoordinates
      (JObj [(''x'', JNum 10), (''y'', JNum 10), (''width'', JNum 100), (''page'', JNum 1)]) \<and>
   \<not> validateCoordinates JNull"
  by (simp add: validateCoordinates_iff demo_coordinates_def)

subsection \<open>Audit metadata\<close>

lemma foldr_max_floor:
  "\<forall>v\<in>set vs. (1::real) \<le> v \<Longrightarrow> foldr max vs 1 = (if vs = [] then 1 else Max (set vs))"
proof (induction vs)
  case Nil
  then show ?case by simp
next
  case (Cons v vs)
  then show ?case by (cases "vs = []") (auto simp: max_def)
qed

lemma list_all_valid_pages:
  "list_all valid_field fs \<Longrightarrow> \<forall>v\<in>set (map (\<lambda>f. coord_page (field_coordinates f)) fs). 1 \<le> v"
  by (auto simp: list_all_iff valid_field_def)

text \<open>
  Claim C3. When the save of an audit record completes, the stored metadata is derived from the
  stored fields, whatever metadata the document was given: \<open>totalFields\<close> is the number of
  fields, \<open>hasSignature\<close> holds exactly when some field has type \<open>signature\<close>, and \<open>pageCount\<close>
  is the greatest \<open>coordinates.page\<close> of the fields, or 1 when there is none.
\<close>

theorem audit_save_metadata:
  assumes "audit_save a = Inr a'"
  shows "audit_fields a' = audit_fields a \<and>
         totalFields (audit_metadata a') = length (audit_fields a') \<and>
         hasSignature (audit_metadata a') = (\<exists>f\<in>set (audit_fields a'). field_type f = ''signature'') \<and>
         pageCount (audit_metadata a') =
           (if audit_fields a' = [] then 1
            else Max (set (map (\<lambda>f. coord_page (field_coordinates f)) (audit_fields a'))))"
proof -
  from assms have v: "validate a" and a': "a' = pre_save a"
    by (auto simp: audit_save_def split: if_splits)
  from v have "list_all valid_field (audit_fields a)" by (simp add: validate_def)
  then have "foldr max (map (\<lambda>f. coord_page (field_coordinates f)) (audit_fields a)) 1 =
    (if map (\<lambda>f. coord_page (field_coordinates f)) (audit_fields a) = [] then 1
     else Max (set (map (\<lambda>f. coord_page (field_coordinates f)) (audit_fields a))))"
    by (intro foldr_max_floor list_all_valid_pages)
  then show ?thesis
    by (simp add: a' pre_save_def list_ex_iff)
qed

lemma demo_audit_saved: "audit_save demo_audit = Inr (pre_save demo_audit)"
  by (simp add: audit_save_def validate_def valid_field_def field_types_def demo_audit_def)

theorem audit_save_metadata_witness:
  "audit_save demo_audit = Inr (pre_save demo_audit) \<and>
   audit_metadata (pre_save demo_audit) = \<lparr> totalFields = 2, hasSignature = True, pageCount = 3 \<rparr>"
proof -
  have "pageCount (audit_metadata (pre_save demo_audit)) = 3"
    using audit_save_metadata [OF demo_audit_saved] by (simp add: pre_save_def demo_audit_def)
  moreover have "totalFields (audit_metadata (pre_save demo_audit)) = 2"
    and "hasSignature (audit_metadata (pre_save demo_audit))"
    by (simp_all add: pre_save_def demo_audit_def)
  ultimately show ?thesis
    using demo_audit_saved by (simp add: pre_save_def)
qed

subsection \<open>Rounding\<close>

lemma round_half_even_error: "\<bar>real_of_int (round_half_even x) - x\<bar> \<le> 1 / 2"
  unfolding round_half_even_def Let_def by (auto; linarith)

lemma round_half_even_int: "round_half_even (real_of_int m) = m"
  by (simp add: round_half_even_def)

lemma quantum_pos: "0 < q \<Longrightarrow> 0 < quantum n q v"
  by (induction n arbitrary: q) simp_all

lemma quantum_down:
  "0 < q \<Longrightarrow> v < 2 ^ 53 * q \<Longrightarrow>
   \<exists>j\<le>n. quantum n q v = q / 2 ^ j \<and> v < 2 ^ 53 * (q / 2 ^ j) \<and> (2 ^ 52 * (q / 2 ^ j) \<le> v \<or> j = n)"
proof (induction n arbitrary: q)
  case 0
  then show ?case by simp
next
  case (Suc n)
  show ?case
  proof (cases "v < 2 ^ 52 * q")
    case True
    then have "v < 2 ^ 53 * (q / 2)" by simp
    from Suc.IH [OF _ this] Suc.prems(1)
    obtain j where j: "j \<le> n" "quantum n (q / 2) v = q / 2 / 2 ^ j"
      "v < 2 ^ 53 * (q / 2 / 2 ^ j)" "2 ^ 52 * (q / 2 / 2 ^ j) \<le> v \<or> j = n"
      by auto
    have e: "q / 2 / 2 ^ j = q / 2 ^ Suc j" by simp
    show ?thesis
      using True j unfolding e by (intro exI [of _ "Suc j"]) auto
  next
    case False
    with Suc.prems show ?thesis by (intro exI [of _ 0]) simp
  qed
qed

lemma quantum_up:
  "0 < q \<Longrightarrow> 2 ^ 52 * q \<le> v \<Longrightarrow>
   \<exists>j\<le>n. quantum n q v = q * 2 ^ j \<and> 2 ^ 52 * (q * 2 ^ j) \<le> v \<and> (v < 2 ^ 53 * (q * 2 ^ j) \<or> j = n)"
proof (induction n arbitrary: q)
  case 0
  then show ?case by simp
next
  case (Suc n)
  from Suc.prems have nlt: "\<not> v < 2 ^ 52 * q" by simp
  show ?case
  proof (cases "2 ^ 53 * q \<le> v")
    case True
    then have "2 ^ 52 * (2 * q) \<le> v" by simp
    from Suc.IH [OF _ this] Suc.prems(1)
    obtain j where j: "j \<le> n" "quantum n (2 * q) v = 2 * q * 2 ^ j"
      "2 ^ 52 * (2 * q * 2 ^ j) \<le> v" "v < 2 ^ 53 * (2 * q * 2 ^ j) \<or> j = n"
      by auto
    have e: "2 * q * 2 ^ j = q * 2 ^ Suc j" by simp
    show ?thesis
      using True nlt j unfolding e by (intro exI [of _ "Suc j"]) auto
  next
    case False
    with Suc.prems nlt show ?thesis by (intro exI [of _ 0]) simp
  qed
qed

text \<open>The quantum found for a positive value below \<open>2^1127\<close>.\<close>

lemma quantum_bounds:
  assumes "0 < v" "v < 2 ^ 1127"
  shows "0 < quantum 1074 1 v \<and> v < 2 ^ 53 * quantum 1074 1 v \<and>
         (2 ^ 52 * quantum 1074 1 v \<le> v \<or> quantum 1074 1 v = 1 / 2 ^ 1074)"
proof (cases "v < 2 ^ 53")
  case True
  then have "v < 2 ^ 53 * 1" by simp
  from quantum_down [OF _ this, of 1074] show ?thesis
    by (auto simp: quantum_pos)
next
  case False
  then have "2 ^ 52 * 1 \<le> v" by simp
  from quantum_up [OF _ this, of 1074]
  obtain j where j: "j \<le> 1074" "quantum 1074 1 v = 1 * 2 ^ j" "2 ^ 52 * (1 * 2 ^ j) \<le> v"
    "v < 2 ^ 53 * (1 * 2 ^ j) \<or> j = 1074" by auto
  have "v < 2 ^ 53 * (1 * 2 ^ j)"
  proof (cases "j = 1074")
    case True
    have "(2::real) ^ 1127 = 2 ^ 53 * (1 * 2 ^ 1074)"
      by (simp only: mult_1 power_add [symmetric]) simp
    with assms(2) True show ?thesis by simp
  next
    case False
    with j(4) show ?thesis by simp
  qed
  with j show ?thesis by (simp add: quantum_pos)
qed

lemma binary64_error_pos:
  assumes "0 < v" "v < 2 ^ 1127"
  shows "\<bar>binary64 v - v\<bar> \<le> quantum 1074 1 v / 2"
proof -
  define q where "q = quantum 1074 1 v"
  from quantum_bounds [OF assms] have q: "0 < q" by (simp add: q_def)
  have b: "binary64 v = real_of_int (round_half_even (v / q)) * q"
    using assms(1) by (simp add: binary64_def q_def Let_def)
  have "\<bar>real_of_int (round_half_even (v / q)) - v / q\<bar> \<le> 1 / 2"
    by (rule round_half_even_error)
  then have "\<bar>real_of_int (round_half_even (v / q)) - v / q\<bar> * q \<le> 1 / 2 * q"
    using q by (simp only: mult_le_cancel_right_pos)
  moreover have "\<bar>real_of_int (round_half_even (v / q)) - v / q\<bar> * q
      = \<bar>real_of_int (round_half_even (v / q)) * q - v\<bar>"
  proof -
    have "\<bar>real_of_int (round_half_even (v / q)) - v / q\<bar> * q
      = \<bar>(real_of_int (round_half_even (v / q)) - v / q) * q\<bar>"
      using q by (simp add: abs_mult)
    also have "(real_of_int (round_half_even (v / q)) - v / q) * q
      = real_of_int (round_half_even (v / q)) * q - v"
      using q by (simp add: left_diff_distrib)
    finally show ?thesis .
  qed
  ultimately show ?thesis by (simp add: b q_def)
qed

text \<open>The relative error of a rounding in the normal range is at most \<open>2^-53\<close>.\<close>

lemma binary64_relative:
  assumes "1 / 2 ^ 1022 \<le> v" "v < 2 ^ 1127"
  shows "\<bar>binary64 v - v\<bar> \<le> v / 2 ^ 53"
proof -
  from assms(1) have v: "0 < v" by (rule less_le_trans [rotated]) simp
  define q where "q = quantum 1074 1 v"
  from quantum_bounds [OF v assms(2)]
  have q: "0 < q" "2 ^ 52 * q \<le> v \<or> q = 1 / 2 ^ 1074" by (simp_all add: q_def)
  have "2 ^ 52 * q \<le> v"
  proof (cases "q = 1 / 2 ^ 1074")
    case True
    have "(2::real) ^ 52 * (1 / 2 ^ 1074) = 1 / 2 ^ 1022"
      by simp
    with True assms(1) show ?thesis by simp
  next
    case False
    with q(2) show ?thesis by simp
  qed
  then have "q / 2 \<le> v / 2 ^ 53" by simp
  with binary64_error_pos [OF v assms(2)] show ?thesis by (simp add: q_def)
qed

lemma binary64_minus: "binary64 (- v) = - binary64 v"
  by (simp add: binary64_def Let_def)

lemma binary64_nat_exact:
  assumes "k < 2 ^ 53"
  shows "binary64 (real (k::nat)) = real k"
proof (cases "k = 0")
  case True
  then show ?thesis by (simp add: binary64_def)
next
  case False
  then have v: "0 < real k" by simp
  from assms have "real k < 2 ^ 53 * 1"
    by (metis mult.right_neutral of_nat_less_iff of_nat_numeral of_nat_power)
  from quantum_down [OF _ this, of 1074]
  obtain j where j: "quantum 1074 1 (real k) = 1 / 2 ^ j" by auto
  have "real k / (1 / 2 ^ j) = real_of_int (int (k * 2 ^ j))" by simp
  then have "round_half_even (real k / (1 / 2 ^ j)) = int (k * 2 ^ j)"
    by (simp only: round_half_even_int)
  then show ?thesis using v
    by (simp add: binary64_def Let_def j)
qed

text \<open>Whole numbers below \<open>2^53\<close> are doubles.\<close>

lemma binary64_numeral:
  "numeral n < (9007199254740992::nat) \<Longrightarrow> binary64 (numeral n) = numeral n"
  using binary64_nat_exact [of "numeral n"] by simp

lemma binary64_0: "binary64 0 = 0"
  by (simp add: binary64_def)

lemma binary64_1: "binary64 1 = 1"
  using binary64_nat_exact [of 1] by simp

lemmas binary64_exact = binary64_0 binary64_1 binary64_numeral

text \<open>
  The page index. A double is a fixed point of the rounding. For a page number that is a
  double, at least 1 and below \<open>2^1000\<close>, and a document of fewer than \<open>2^52\<close> pages,
  \<^verbatim>\<open>Math.min(page - 1, pages.length - 1)\<close> evaluated in binary64 is \<open>pageIndex\<close>, which is
  written without rounding.
\<close>

lemma real_less_pow: "a < 2 ^ k \<Longrightarrow> real (a::nat) < 2 ^ k"
  using of_nat_less_iff [of a "2 ^ k", where ?'a = real] by simp

lemma int_less_pow: "real_of_int M < 2 ^ k \<Longrightarrow> M < 2 ^ k"
  using of_int_less_iff [of M "2 ^ k", where ?'a = real] by simp

lemma int_ge_pow: "2 ^ k \<le> real_of_int M \<Longrightarrow> 2 ^ k \<le> M"
  using of_int_le_iff [of "2 ^ k" M, where ?'a = real] by simp

lemma dyadic_exact:
  assumes "a < 2 ^ 53" "i \<le> 1074"
  shows "binary64 (real (a::nat) / 2 ^ i) = real a / 2 ^ i"
proof (cases "a = 0")
  case True
  then show ?thesis by (simp add: binary64_def)
next
  case False
  define v where "v = real a / 2 ^ i"
  from False have v: "0 < v" by (simp add: v_def)
  have a53: "real a < 2 ^ 53"
    using assms(1) by (rule real_less_pow)
  have "real a / 2 ^ i \<le> real a / 1"
    by (intro divide_left_mono) simp_all
  then have "v \<le> real a" by (simp add: v_def)
  with a53 have "v < 2 ^ 53 * 1" by simp
  from quantum_down [OF _ this, of 1074]
  obtain j where j: "j \<le> 1074" "quantum 1074 1 v = 1 / 2 ^ j"
    "2 ^ 52 * (1 / 2 ^ j) \<le> v \<or> j = 1074" by auto
  have ij: "i \<le> j"
  proof (cases "j = 1074")
    case True
    with assms(2) show ?thesis by simp
  next
    case False
    with j(3) have "2 ^ 52 / 2 ^ j \<le> real a / 2 ^ i" by (simp add: v_def)
    then have "(2::real) ^ 52 * 2 ^ i \<le> real a * 2 ^ j" by (simp add: field_simps)
    also have "\<dots> < 2 ^ 53 * 2 ^ j" using a53 by simp
    finally have "(2::real) ^ i < 2 ^ Suc j" by simp
    then have "i < Suc j" by (simp only: power_strict_increasing_iff [of 2]) 
    then show ?thesis by simp
  qed
  then obtain d where d: "j = i + d" by (auto simp: le_iff_add)
  have "v / (1 / 2 ^ j) = real_of_int (int (a * 2 ^ d))"
    by (simp add: v_def d power_add)
  then have "round_half_even (v / (1 / 2 ^ j)) = int (a * 2 ^ d)"
    by (simp only: round_half_even_int)
  then have "binary64 v = v" using v
    by (simp add: binary64_def Let_def j(2)) (simp add: v_def d power_add)
  then show ?thesis by (simp add: v_def)
qed

lemma double_minus_one:
  assumes "binary64 p = p" "1 \<le> p" "p < 2 ^ 53"
  shows "binary64 (p - 1) = p - 1"
proof -
  from assms(2) have p: "0 < p" by simp
  from assms(3) have "p < 2 ^ 53 * 1" by simp
  from quantum_down [OF _ this, of 1074]
  obtain i where i: "i \<le> 1074" "quantum 1074 1 p = 1 / 2 ^ i" "p < 2 ^ 53 * (1 / 2 ^ i)" by auto
  define M where "M = round_half_even (p / (1 / 2 ^ i))"
  from assms(1) p have pM: "p = real_of_int M / 2 ^ i"
    by (simp add: binary64_def Let_def i(2) M_def)
  from assms(2) have "1 \<le> real_of_int M / 2 ^ i" by (simp only: pM [symmetric])
  then have "2 ^ i \<le> real_of_int M" by (simp add: pos_le_divide_eq)
  then have Mi: "2 ^ i \<le> M" by (rule int_ge_pow)
  then have M0: "0 < M" by (rule less_le_trans [rotated]) simp
  from Mi M0 have Mn: "2 ^ i \<le> nat M" by (simp add: le_nat_iff)
  define a where "a = nat M - 2 ^ i"
  from i(3) have "real_of_int M / 2 ^ i < 2 ^ 53 / 2 ^ i" by (simp add: pM [symmetric])
  then have "real_of_int M < 2 ^ 53" by (simp add: divide_less_cancel)
  then have "M < 2 ^ 53" by (rule int_less_pow)
  then have "nat M < 2 ^ 53" using M0 by (simp add: nat_less_iff)
  then have a53: "a < 2 ^ 53" by (simp add: a_def)
  have "real a = real_of_int M - 2 ^ i"
    using Mn M0 by (simp add: a_def)
  then have "p - 1 = real a / 2 ^ i"
    by (simp add: pM diff_divide_distrib)
  with dyadic_exact [OF a53 i(1)] show ?thesis by simp
qed

lemma pageIndex_binary64:
  assumes "binary64 p = p" "1 \<le> p" "p < 2 ^ 1000" "1 \<le> n" "n < 2 ^ 52"
  shows "min (binary64 (p - 1)) (binary64 (real n - 1)) = pageIndex p n"
proof -
  from assms(5) have "n - 1 < 2 ^ 53" by simp
  then have "binary64 (real (n - 1)) = real (n - 1)" by (rule binary64_nat_exact)
  with assms(4) have n: "binary64 (real n - 1) = real n - 1" by simp
  have n52: "real n < 2 ^ 52"
    using assms(5) by (rule real_less_pow)
  show ?thesis
  proof (cases "p < 2 ^ 53")
    case True
    from double_minus_one [OF assms(1,2) True] n show ?thesis by (simp add: pageIndex_def)
  next
    case False
    define v where "v = p - 1"
    define t where "t = v / 2 ^ 53"
    define N :: real where "N = 2 ^ 52"
    from False have v: "2 * N - 1 \<le> v" by (simp add: v_def N_def)
    have N: "1 \<le> N" by (simp add: N_def)
    from v N have v0: "1 \<le> v" by linarith
    have "(1::real) / 2 ^ 1022 \<le> 1" by simp
    then have lo: "1 / 2 ^ 1022 \<le> v" using v0 by (rule order_trans)
    have "(2::real) ^ 1000 < 2 ^ 1127" by simp
    with assms(3) have "v < 2 ^ 1127" unfolding v_def by linarith
    with lo have r: "\<bar>binary64 v - v\<bar> \<le> v / 2 ^ 53" by (rule binary64_relative)
    have "t \<le> v / 2" using v0 by (simp add: t_def)
    with abs_le_D2 [OF r] have "v / 2 \<le> binary64 v" unfolding t_def [symmetric] by linarith
    with v n52 have "real n - 1 \<le> binary64 v" unfolding N_def [symmetric] by linarith
    moreover from v n52 have "real n - 1 \<le> p - 1"
      unfolding N_def [symmetric] v_def using N by linarith
    ultimately show ?thesis by (simp add: n pageIndex_def v_def min_def)
  qed
qed

subsection \<open>Page lookup and the branches of the dispatch\<close>

lemma page_at_SomeD: "page_at n i = Some k \<Longrightarrow> k < n \<and> real k = i"
  by (auto simp: page_at_def split: if_splits)

lemma page_at_int:
  assumes "1 \<le> p" "p \<in> \<int>" "1 \<le> n"
  shows "page_at n (pageIndex p n) = Some (nat \<lfloor>min (p - 1) (real n - 1)\<rfloor>)"
proof -
  from assms(2) obtain i where p: "p = real_of_int i" by (auto elim: Ints_cases)
  have "min (p - 1) (real n - 1) = real_of_int (min (i - 1) (int n - 1))"
    by (simp add: p min_def)
  moreover have "0 \<le> min (i - 1) (int n - 1)" "min (i - 1) (int n - 1) < int n"
    using assms(1,3) by (simp_all add: p)
  ultimately show ?thesis
    unfolding page_at_def pageIndex_def
    by (simp del: of_int_min)
qed

lemma page_at_beyond:
  assumes "real n < p" "1 \<le> n"
  shows "page_at n (pageIndex p n) = Some (n - 1)"
proof -
  have "min (p - 1) (real n - 1) = real_of_int (int n - 1)"
    using assms by (simp add: min_def)
  then show ?thesis
    unfolding page_at_def pageIndex_def using assms(2)
    by (simp add: nat_diff_distrib')
qed

text \<open>The page of a whole page number, or of a number beyond the page count, is found.\<close>

lemma page_found:
  assumes "1 \<le> p" "1 \<le> n" "p \<in> \<int> \<or> real n < p"
  obtains k where "page_at n (pageIndex p n) = Some k" "k < n"
    "real k = min (p - 1) (real n - 1)" "real n < p \<longrightarrow> k = n - 1"
proof -
  have "\<exists>k. page_at n (pageIndex p n) = Some k \<and> (real n < p \<longrightarrow> k = n - 1)"
  proof (cases "real n < p")
    case True
    then show ?thesis using page_at_beyond [OF True assms(2)] by simp
  next
    case False
    with assms(3) have "p \<in> \<int>" by simp
    from page_at_int [OF assms(1) this assms(2)] False show ?thesis by simp
  qed
  then obtain k where k: "page_at n (pageIndex p n) = Some k"
    and last: "real n < p \<longrightarrow> k = n - 1" by blast
  from page_at_SomeD [OF k] have "k < n" "real k = min (p - 1) (real n - 1)"
    by (simp_all add: pageIndex_def)
  from that [OF k this last] show ?thesis .
qed

lemma draw_Some: "draw (Some k) op pages = Inr (pages[k := pages ! k @ [op]])"
  by (simp add: draw_def)

lemma encodable_literals: "encodable e ''SIGNATURE''" "encodable e ''[IMAGE]''"
  by (simp_all add: encodable_def printable_def)

lemma draw_then_text:
  "k < length pages \<Longrightarrow>
   and_then (draw (Some k) op pages) (drawText e (Some k) t x y sz c) =
     (case t of
        JStr s \<Rightarrow>
          if encodable e s then Inr (pages[k := pages ! k @ [op, DrawText s x y sz c]])
          else Inl EncodingError
      | _ \<Rightarrow> Inl TypeError)"
  by (cases t) (simp_all add: draw_def drawText_def and_then_def)

lemma draw_None_then: "and_then (draw None op pages) g = Inl TypeError"
  by (simp add: draw_def and_then_def)

lemma signature_case_placeholder:
  assumes "truthy sig" "embed_signature e sig = Inl err" "k < length pages"
  shows "signature_case e sig (Some k) x y w h pages =
     Inr (pages[k := pages ! k @
       [DrawRectangle x y w h (rgb 1 0 0) 1 (rgb 1 (binary64 0.9) (binary64 0.9)),
        DrawText ''SIGNATURE'' (binary64 (x + 5)) (binary64 (binary64 (y + binary64 (h / 2)) - 6))
          10 (rgb 1 0 0)]])"
  using assms(1,2)
  by (simp add: signature_case_def and_then_def [of "Inl err"] draw_then_text [OF assms(3)]
      encodable_literals)

lemma signature_case_image:
  assumes "truthy sig" "embed_signature e sig = Inr img"
  shows "signature_case e sig (Some k) x y w h pages =
     Inr (pages[k := pages ! k @
       [DrawImage img (binary64 (x + xOffset (calculateImageDimensions img w h)))
          (binary64 (y + yOffset (calculateImageDimensions img w h)))
          (width (calculateImageDimensions img w h))
          (height (calculateImageDimensions img w h)) (binary64 0.9)]])"
  using assms by (simp add: signature_case_def and_then_def draw_def Let_def)

lemma signature_case_none: "\<not> truthy sig \<Longrightarrow> signature_case e sig pdfPage x y w h pages = Inr pages"
  by (simp add: signature_case_def)

lemma signature_case_off_page:
  "truthy sig \<Longrightarrow> signature_case e sig None x y w h pages = Inl TypeError"
  by (simp add: signature_case_def and_then_def draw_def Let_def split: sum.splits)

lemma text_case_on_page:
  assumes "k < length pages"
  shows "text_case e v (Some k) x y w h pages =
     (if truthy v then
        (case v of
           JStr s \<Rightarrow>
             if encodable e s then
               Inr (pages[k := pages ! k @
                 [DrawRectangle x y w h (rgb 0 0 0) (binary64 0.5) (rgb 1 1 1),
                  DrawText s (binary64 (x + 5)) (binary64 (binary64 (y + binary64 (h / 2)) - 6))
                    12 (rgb 0 0 0)]])
             else Inl EncodingError
         | _ \<Rightarrow> Inl TypeError)
      else Inr pages)"
  by (cases v) (simp_all add: text_case_def draw_then_text [OF assms])

lemma text_case_off_page: "truthy v \<Longrightarrow> text_case e v None x y w h pages = Inl TypeError"
  by (simp add: text_case_def draw_None_then)

lemma date_case_on_page:
  assumes "k < length pages"
  shows "date_case e (Some k) x y w h pages =
     (if encodable e (toLocaleDateString e) then
        Inr (pages[k := pages ! k @
          [DrawRectangle x y w h (rgb (binary64 0.2) (binary64 0.4) (binary64 0.8)) 1
             (rgb (binary64 0.95) (binary64 0.95) 1),
           DrawText (toLocaleDateString e) (binary64 (x + 5))
             (binary64 (binary64 (y + binary64 (h / 2)) - 6)) 10
             (rgb (binary64 0.2) (binary64 0.4) (binary64 0.8))]])
      else Inl EncodingError)"
  by (simp add: date_case_def draw_then_text [OF assms])

lemma radio_case_on_page:
  "radio_case (Some k) x y w h pages =
     Inr (pages[k := pages ! k @
       [DrawCircle (binary64 (x + binary64 (w / 2))) (binary64 (y + binary64 (h / 2)))
          (binary64 (binary64 (min w h / 2) - 2)) (rgb 0 0 0) 1 (rgb 1 1 1)]])"
  by (simp add: radio_case_def draw_Some)

lemma image_case_on_page:
  assumes "k < length pages"
  shows "image_case e (Some k) x y w h pages =
     Inr (pages[k := pages ! k @
       [DrawRectangle x y w h (rgb (binary64 0.8) (binary64 0.2) (binary64 0.8)) 1
          (rgb 1 (binary64 0.95) 1),
        DrawText ''[IMAGE]'' (binary64 (binary64 (x + binary64 (w / 2)) - 20))
          (binary64 (binary64 (y + binary64 (h / 2)) - 6)) 10
          (rgb (binary64 0.8) (binary64 0.2) (binary64 0.8))]])"
  by (simp add: image_case_def draw_then_text [OF assms] encodable_literals)

lemma other_cases_off_page:
  "date_case e None x y w h pages = Inl TypeError"
  "radio_case None x y w h pages = Inl TypeError"
  "image_case e None x y w h pages = Inl TypeError"
  by (simp_all add: date_case_def radio_case_def image_case_def draw_def and_then_def)

lemma render_field_dispatch:
  assumes "\<not> nullish f" "truthy (js_get f ''pdfCoordinates'')"
  shows "render_field e sig pages f =
     (let c = js_get f ''pdfCoordinates'';
          pdfPage = page_at (length pages) (pageIndex (num_of (js_get c ''page'')) (length pages));
          x = num_of (js_get c ''x''); y = num_of (js_get c ''y'');
          w = num_of (js_get c ''width''); h = num_of (js_get c ''height'')
      in if js_get f ''type'' = JStr ''signature'' then signature_case e sig pdfPage x y w h pages
         else if js_get f ''type'' = JStr ''text'' then text_case e (js_get f ''value'') pdfPage x y w h pages
         else if js_get f ''type'' = JStr ''date'' then date_case e pdfPage x y w h pages
         else if js_get f ''type'' = JStr ''radio'' then radio_case pdfPage x y w h pages
         else if js_get f ''type'' = JStr ''image'' then image_case e pdfPage x y w h pages
         else Inr pages)"
  using assms by (simp add: render_field_def Let_def)

lemma ex_opsI:
  "r = Inr (pages[k := pages ! k @ op # ops]) \<Longrightarrow> d \<Longrightarrow>
   \<exists>ops. r = Inr (pages[k := pages ! k @ ops]) \<and> (ops \<noteq> []) = d"
  by blast

lemma drawable_string: "drawable e v \<longleftrightarrow> (\<exists>s. v = JStr s \<and> encodable e s)"
  by (cases v) (simp_all add: drawable_def)

text \<open>
  A field whose page is found and whose texts are accepted is rendered on that page, by at
  least one operation when it draws.
\<close>

lemma render_field_on_page:
  assumes "\<not> nullish f"
    and "page_at (length pages)
           (pageIndex (num_of (js_get (js_get f ''pdfCoordinates'') ''page'')) (length pages)) = Some k"
    and "texts_drawable e f"
  shows "\<exists>ops. render_field e sig pages f = Inr (pages[k := pages ! k @ ops]) \<and>
           (ops \<noteq> []) = draws sig f"
proof -
  from assms(2) have k: "k < length pages" by (auto dest: page_at_SomeD)
  show ?thesis
  proof (cases "truthy (js_get f ''pdfCoordinates'')")
    case False
    then have "render_field e sig pages f = Inr (pages[k := pages ! k @ []])"
      using assms(1) by (simp add: render_field_def Let_def)
    moreover from False have "\<not> draws sig f" by (simp add: draws_def)
    ultimately show ?thesis by (intro exI [of _ "[]"]) simp
  next
    case True
    note d = render_field_dispatch [OF assms(1) True, of e sig pages, unfolded Let_def assms(2)]
    consider (c_sig) "js_get f ''type'' = JStr ''signature''"
      | (c_text) "js_get f ''type'' = JStr ''text''"
      | (c_date) "js_get f ''type'' = JStr ''date''"
      | (c_radio) "js_get f ''type'' = JStr ''radio''"
      | (c_image) "js_get f ''type'' = JStr ''image''"
      | (c_other) "js_get f ''type'' \<notin> JStr ` set field_types"
      by (auto simp: field_types_def)
    then show ?thesis
    proof cases
      case c_sig
      then have dr: "draws sig f = truthy sig" using True by (simp add: draws_def)
      show ?thesis
      proof (cases "truthy sig")
        case False
        then have "render_field e sig pages f = Inr (pages[k := pages ! k @ []])"
          by (simp add: d c_sig signature_case_none)
        then show ?thesis using False dr by (intro exI [of _ "[]"]) simp
      next
        case ts: True
        show ?thesis
        proof (cases "embed_signature e sig")
          case (Inl err)
          show ?thesis
            by (rule ex_opsI) (simp_all add: d c_sig signature_case_placeholder [OF ts Inl k] dr ts)
        next
          case (Inr img)
          show ?thesis
            by (rule ex_opsI) (simp_all add: d c_sig signature_case_image [OF ts Inr] dr ts)
        qed
      qed
    next
      case c_text
      then have dr: "draws sig f = truthy (js_get f ''value'')" using True by (simp add: draws_def)
      show ?thesis
      proof (cases "truthy (js_get f ''value'')")
        case False
        then have "render_field e sig pages f = Inr (pages[k := pages ! k @ []])"
          by (simp add: d c_text text_case_def)
        then show ?thesis using False dr by (intro exI [of _ "[]"]) simp
      next
        case tv: True
        with assms(3) c_text obtain s where s: "js_get f ''value'' = JStr s" "encodable e s"
          by (auto simp: texts_drawable_def drawable_string)
        from tv s(1) have ne: "s \<noteq> []" by simp
        show ?thesis
          by (rule ex_opsI) (simp_all add: d c_text text_case_on_page [OF k] s dr ne)
      qed
    next
      case c_date
      with assms(3) have enc: "encodable e (toLocaleDateString e)"
        by (simp add: texts_drawable_def)
      from c_date True have dr: "draws sig f" by (simp add: draws_def)
      show ?thesis
        by (rule ex_opsI) (simp_all add: d c_date date_case_on_page [OF k] enc dr)
    next
      case c_radio
      with True have dr: "draws sig f" by (simp add: draws_def)
      show ?thesis
        by (rule ex_opsI) (simp_all add: d c_radio radio_case_on_page dr)
    next
      case c_image
      with True have dr: "draws sig f" by (simp add: draws_def)
      show ?thesis
        by (rule ex_opsI) (simp_all add: d c_image image_case_on_page [OF k] dr)
    next
      case c_other
      then have "render_field e sig pages f = Inr (pages[k := pages ! k @ []])"
        using d by (auto simp: field_types_def)
      moreover from c_other have "\<not> draws sig f" by (auto simp: draws_def field_types_def)
      ultimately show ?thesis by (intro exI [of _ "[]"]) simp
    qed
  qed
qed

subsection \<open>Validated coordinates and the example data\<close>

lemma validateCoordinates_truthy: "validateCoordinates c \<Longrightarrow> truthy c"
  by (auto simp: validateCoordinates_def split: if_splits)

lemma validateCoordinates_page: "validateCoordinates c \<Longrightarrow> 1 \<le> num_of (js_get c ''page'')"
  by (auto simp: validateCoordinates_def Let_def split: if_splits)

lemma validateCoordinates_demo: "validateCoordinates (demo_coordinates p) \<longleftrightarrow> 1 \<le> p"
  by (simp add: validateCoordinates_def demo_coordinates_def)

lemma demo_field_simps:
  "\<not> nullish (demo_field t v p)"
  "js_get (demo_field t v p) ''type'' = JStr t"
  "js_get (demo_field t v p) ''value'' = v"
  "js_get (demo_field t v p) ''pdfCoordinates'' = demo_coordinates p"
  "num_of (js_get (demo_coordinates p) ''page'') = p"
  "num_of (js_get (demo_coordinates p) ''x'') = 10"
  "num_of (js_get (demo_coordinates p) ''y'') = 10"
  "num_of (js_get (demo_coordinates p) ''width'') = 100"
  "num_of (js_get (demo_coordinates p) ''height'') = 20"
  by (simp_all add: demo_field_def demo_coordinates_def nullish_def)

subsection \<open>Fields that are not rendered\<close>

lemma render_field_no_draw:
  assumes "\<not> nullish f" "\<not> draws sig f"
  shows "render_field e sig pages f = Inr pages"
  using assms
  by (auto simp: render_field_def Let_def draws_def signature_case_none text_case_def)

lemma render_field_off_page:
  assumes "\<not> nullish f" "draws sig f"
    and "page_at (length pages)
           (pageIndex (num_of (js_get (js_get f ''pdfCoordinates'') ''page'')) (length pages)) = None"
  shows "render_field e sig pages f = Inl TypeError"
proof -
  from assms(2) have c: "truthy (js_get f ''pdfCoordinates'')" by (simp add: draws_def)
  note d = render_field_dispatch [OF assms(1) c, of e sig pages, unfolded Let_def assms(3)]
  from assms(2) consider
      (c_sig) "js_get f ''type'' = JStr ''signature''" "truthy sig"
    | (c_text) "js_get f ''type'' = JStr ''text''" "truthy (js_get f ''value'')"
    | (c_date) "js_get f ''type'' = JStr ''date''"
    | (c_radio) "js_get f ''type'' = JStr ''radio''"
    | (c_image) "js_get f ''type'' = JStr ''image''"
    by (auto simp: draws_def)
  then show ?thesis
  proof cases
    case c_sig
    then show ?thesis by (simp add: d signature_case_off_page)
  next
    case c_text
    then show ?thesis by (simp add: d text_case_off_page)
  next
    case c_date
    then show ?thesis by (simp add: d other_cases_off_page)
  next
    case c_radio
    then show ?thesis by (simp add: d other_cases_off_page)
  next
    case c_image
    then show ?thesis by (simp add: d other_cases_off_page)
  qed
qed

subsection \<open>The exits of the route\<close>

lemma invalid_fields_nullish:
  "\<exists>f\<in>set fs. nullish f \<Longrightarrow> invalid_fields fs = Inl TypeError"
proof (induction fs)
  case Nil
  then show ?case by simp
next
  case (Cons f fs)
  show ?case
  proof (cases "nullish f")
    case True
    then show ?thesis by simp
  next
    case False
    with Cons.prems have "\<exists>f\<in>set fs. nullish f" by auto
    then have "invalid_fields fs = Inl TypeError" by (rule Cons.IH)
    with False show ?thesis by (simp add: and_then_def)
  qed
qed

lemma invalid_fields_filter:
  "\<forall>f\<in>set fs. \<not> nullish f \<Longrightarrow>
   invalid_fields fs = Inr (filter (\<lambda>f. \<not> validateCoordinates (js_get f ''pdfCoordinates'')) fs)"
  by (induction fs) (auto simp: and_then_def)

lemma invalid_fields_Inr:
  "invalid_fields fs = Inr bad \<Longrightarrow>
   (\<forall>f\<in>set fs. \<not> nullish f) \<and>
   bad = filter (\<lambda>f. \<not> validateCoordinates (js_get f ''pdfCoordinates'')) fs"
  using invalid_fields_nullish [of fs] invalid_fields_filter [of fs] by fastforce

lemma invalid_fields_none:
  "invalid_fields fs = Inr [] \<longleftrightarrow>
   (\<forall>f\<in>set fs. \<not> nullish f \<and> validateCoordinates (js_get f ''pdfCoordinates''))"
proof
  assume "invalid_fields fs = Inr []"
  from invalid_fields_Inr [OF this]
  have "\<forall>f\<in>set fs. \<not> nullish f"
    and "filter (\<lambda>f. \<not> validateCoordinates (js_get f ''pdfCoordinates'')) fs = []"
    by simp_all
  then show "\<forall>f\<in>set fs. \<not> nullish f \<and> validateCoordinates (js_get f ''pdfCoordinates'')"
    by (simp add: filter_empty_conv)
next
  assume a: "\<forall>f\<in>set fs. \<not> nullish f \<and> validateCoordinates (js_get f ''pdfCoordinates'')"
  then have "\<forall>f\<in>set fs. \<not> nullish f" by simp
  from invalid_fields_filter [OF this] a show "invalid_fields fs = Inr []"
    by (simp add: filter_empty_conv)
qed

text \<open>The exits of the route, one by one.\<close>

lemma sign_pdf_missing:
  assumes "\<not> truthy (js_get (JObj (req_body req)) ''pdfId'') \<or>
           \<not> isArray (js_get (JObj (req_body req)) ''fields'')"
  shows "sign_pdf e req =
    (Response 400 (ErrorBody ''Missing required fields: pdfId and fields array are required''), [])"
  using assms unfolding sign_pdf_def Let_def by (simp only: if_True split: if_splits)

lemma sign_pdf_unreadable_field:
  assumes "truthy (js_get (JObj (req_body req)) ''pdfId'')"
    and "js_get (JObj (req_body req)) ''fields'' = JArr fs"
    and "invalid_fields fs = Inl err"
  shows "sign_pdf e req = (Response 500 (ErrorDetails ''Failed to sign PDF'' err), [])"
  using assms unfolding sign_pdf_def Let_def by (simp add: isArray_def elements_def)

lemma sign_pdf_invalid:
  assumes "truthy (js_get (JObj (req_body req)) ''pdfId'')"
    and "js_get (JObj (req_body req)) ''fields'' = JArr fs"
    and "invalid_fields fs = Inr bad" "bad \<noteq> []"
  shows "sign_pdf e req =
    (Response 400 (ErrorBody (''Invalid coordinates for '' @ show_nat (length bad) @ '' field(s)'')), [])"
  using assms unfolding sign_pdf_def Let_def by (simp add: isArray_def elements_def)

lemma sign_pdf_no_source:
  assumes "truthy (js_get (JObj (req_body req)) ''pdfId'')"
    and "js_get (JObj (req_body req)) ''fields'' = JArr fs"
    and "invalid_fields fs = Inr []"
    and "\<not> pathExists e"
  shows "sign_pdf e req =
    (Response 404 (ErrorBody ''Sample PDF not found''), [PathExists ''public/sample.pdf''])"
  using assms unfolding sign_pdf_def Let_def by (simp add: isArray_def elements_def)

lemma sign_pdf_load_fails:
  assumes "truthy (js_get (JObj (req_body req)) ''pdfId'')"
    and "js_get (JObj (req_body req)) ''fields'' = JArr fs"
    and "invalid_fields fs = Inr []"
    and "pathExists e" "loadPages e (readFile e) = None"
  shows "sign_pdf e req =
    (Response 500 (ErrorDetails ''Failed to sign PDF'' PdfLoadError),
     [PathExists ''public/sample.pdf'', ReadFile ''public/sample.pdf''])"
  using assms unfolding sign_pdf_def Let_def by (simp add: isArray_def elements_def)

lemma sign_pdf_render_fails:
  assumes "truthy (js_get (JObj (req_body req)) ''pdfId'')"
    and "js_get (JObj (req_body req)) ''fields'' = JArr fs"
    and "invalid_fields fs = Inr []"
    and "pathExists e" "loadPages e (readFile e) = Some n"
    and "render_fields e (js_get (JObj (req_body req)) ''signatureImage'') (replicate n []) fs = Inl err"
  shows "sign_pdf e req =
    (Response 500 (ErrorDetails ''Failed to sign PDF'' err),
     [PathExists ''public/sample.pdf'', ReadFile ''public/sample.pdf''])"
  using assms unfolding sign_pdf_def Let_def by (simp add: isArray_def elements_def)

lemma sign_pdf_audit_fails:
  assumes "truthy (js_get (JObj (req_body req)) ''pdfId'')"
    and "js_get (JObj (req_body req)) ''fields'' = JArr fs"
    and "invalid_fields fs = Inr []"
    and "pathExists e" "loadPages e (readFile e) = Some n"
    and "render_fields e (js_get (JObj (req_body req)) ''signatureImage'') (replicate n []) fs = Inr pages"
    and "and_then
           (new_Audit e (js_get (JObj (req_body req)) ''pdfId'')
              (calculateSHA256 e (readFile e))
              (calculateSHA256 e (pdfDoc_save e (readFile e) pages))
              (map audit_entry fs) (newDate e) (req_ip req) (req_userAgent req))
           audit_save = Inl err"
  shows "sign_pdf e req =
    (Response 500 (ErrorDetails ''Failed to sign PDF'' err), written e pages)"
  using assms unfolding sign_pdf_def Let_def written_def by (simp add: isArray_def elements_def)

lemma sign_pdf_success:
  assumes "truthy (js_get (JObj (req_body req)) ''pdfId'')"
    and "js_get (JObj (req_body req)) ''fields'' = JArr fs"
    and "invalid_fields fs = Inr []"
    and "pathExists e" "loadPages e (readFile e) = Some n"
    and "render_fields e (js_get (JObj (req_body req)) ''signatureImage'') (replicate n []) fs = Inr pages"
    and "and_then
           (new_Audit e (js_get (JObj (req_body req)) ''pdfId'')
              (calculateSHA256 e (readFile e))
              (calculateSHA256 e (pdfDoc_save e (readFile e) pages))
              (map audit_entry fs) (newDate e) (req_ip req) (req_userAgent req))
           audit_save = Inr a"
  shows "sign_pdf e req =
    (Response 200 (SuccessBody
       \<lparr> message = ''PDF signed successfully'',
         signedPdfUrl = ''/pdfs/'' @ ''signed_'' @ show_nat (dateNow e) @ ''.pdf'',
         originalHash = calculateSHA256 e (readFile e),
         signedHash = calculateSHA256 e (pdfDoc_save e (readFile e) pages),
         auditId = audit_id a,
         downloadUrl = ''/api/download/'' @ ''signed_'' @ show_nat (dateNow e) @ ''.pdf'' \<rparr>),
     written e pages @ [AuditSaved a])"
  using assms unfolding sign_pdf_def Let_def written_def by (simp add: isArray_def elements_def)

subsection \<open>Casting and saving the audit document\<close>

lemma and_then_Inr_iff: "and_then r f = Inr v \<longleftrightarrow> (\<exists>u. r = Inr u \<and> f u = Inr v)"
  by (cases r) (simp_all add: and_then_def)

lemma and_then_Inl_iff: "and_then r f = Inl err \<longleftrightarrow> r = Inl err \<or> (\<exists>u. r = Inr u \<and> f u = Inl err)"
  by (cases r) (simp_all add: and_then_def)

lemma string_path_error: "string_path e v = Inl err \<Longrightarrow> err = ValidationError"
  by (cases v) (auto simp: string_path_def split: option.splits)

lemma value_path_error: "value_path e v = Inl err \<Longrightarrow> err = ValidationError"
  by (cases v) (auto simp: value_path_def split: option.splits)

lemma number_path_error: "number_path e v = Inl err \<Longrightarrow> err = ValidationError"
  by (cases v) (auto simp: number_path_def split: option.splits)

lemma coordinates_path_error: "coordinates_path e c = Inl err \<Longrightarrow> err = ValidationError"
  by (cases c) (auto simp: coordinates_path_def and_then_Inl_iff dest: number_path_error)

lemma cast_field_error: "cast_field e f = Inl err \<Longrightarrow> err = ValidationError"
  by (auto simp: cast_field_def and_then_Inl_iff
      dest: string_path_error coordinates_path_error value_path_error)

lemma cast_fields_error: "cast_fields e fs = Inl err \<Longrightarrow> err = ValidationError"
  by (induction fs) (auto simp: and_then_Inl_iff dest: cast_field_error)

lemma new_Audit_error:
  "new_Audit e pdfId oh sh fs ts ip ua = Inl err \<Longrightarrow> err = ValidationError"
  by (auto simp: new_Audit_def and_then_Inl_iff dest: string_path_error cast_fields_error)

lemma cast_fields_Inr_iff:
  "cast_fields e rs = Inr fs' \<longleftrightarrow> list_all2 (\<lambda>r f'. cast_field e r = Inr f') rs fs'"
proof (induction rs arbitrary: fs')
  case Nil
  show ?case by auto
next
  case (Cons r rs)
  show ?case
    by (cases fs') (auto simp: and_then_Inr_iff Cons.IH)
qed

lemma cast_field_entry:
  "cast_field e (audit_entry f) = Inr s \<longleftrightarrow>
     string_path e (js_get f ''type'') = Inr (field_type s) \<and>
     coordinates_path e (js_get f ''pdfCoordinates'') = Inr (field_coordinates s) \<and>
     value_path e (if js_get f ''type'' = JStr ''text'' then js_get f ''value'' else JUndefined)
       = Inr (field_value s)"
  by (cases s) (auto simp: cast_field_def audit_entry_def and_then_Inr_iff)

lemma new_Audit_Inr_iff:
  "new_Audit e pdfId oh sh rs ts ip ua = Inr a \<longleftrightarrow>
     (\<exists>pid fs'. string_path e pdfId = Inr pid \<and> cast_fields e rs = Inr fs' \<and>
        a = \<lparr> audit_id = newObjectId e, audit_pdfId = pid, audit_originalHash = oh,
              audit_signedHash = sh, audit_fields = fs', audit_timestamp = ts,
              audit_ipAddress = ip, audit_userAgent = ua,
              audit_metadata = \<lparr> totalFields = 0, hasSignature = False, pageCount = 1 \<rparr> \<rparr>)"
  by (auto simp: new_Audit_def and_then_Inr_iff)

lemma audit_save_Inr_iff: "audit_save a = Inr a' \<longleftrightarrow> validate a \<and> a' = pre_save a"
  by (auto simp: audit_save_def)

lemma audit_fields_pre_save: "audit_fields (pre_save a) = audit_fields a"
  by (simp add: pre_save_def)

text \<open>A response of status 200 is the last exit of the route.\<close>

lemma sign_pdf_200D:
  assumes "status (fst (sign_pdf e req)) = 200"
  obtains fs n pages a where
    "truthy (js_get (JObj (req_body req)) ''pdfId'')"
    "js_get (JObj (req_body req)) ''fields'' = JArr fs"
    "invalid_fields fs = Inr []"
    "pathExists e" "loadPages e (readFile e) = Some n"
    "render_fields e (js_get (JObj (req_body req)) ''signatureImage'') (replicate n []) fs = Inr pages"
    "and_then
       (new_Audit e (js_get (JObj (req_body req)) ''pdfId'')
          (calculateSHA256 e (readFile e))
          (calculateSHA256 e (pdfDoc_save e (readFile e) pages))
          (map audit_entry fs) (newDate e) (req_ip req) (req_userAgent req))
       audit_save = Inr a"
    "snd (sign_pdf e req) = written e pages @ [AuditSaved a]"
proof -
  have "\<not> (\<not> truthy (js_get (JObj (req_body req)) ''pdfId'') \<or>
           \<not> isArray (js_get (JObj (req_body req)) ''fields''))"
  proof
    assume "\<not> truthy (js_get (JObj (req_body req)) ''pdfId'') \<or>
           \<not> isArray (js_get (JObj (req_body req)) ''fields'')"
    from sign_pdf_missing [OF this, of e] assms show False by simp
  qed
  then have t: "truthy (js_get (JObj (req_body req)) ''pdfId'')"
    and arr: "isArray (js_get (JObj (req_body req)) ''fields'')"
    by blast+
  from arr obtain fs where fs: "js_get (JObj (req_body req)) ''fields'' = JArr fs"
    by (auto simp: isArray_def split: jsval.splits)
  have iv: "invalid_fields fs = Inr []"
  proof (cases "invalid_fields fs")
    case (Inl err)
    from sign_pdf_unreadable_field [OF t fs Inl, of e] assms show ?thesis by simp
  next
    case (Inr bad)
    show ?thesis
    proof (cases "bad = []")
      case True
      with Inr show ?thesis by simp
    next
      case False
      from sign_pdf_invalid [OF t fs Inr False, of e] assms show ?thesis by simp
    qed
  qed
  have pe: "pathExists e"
  proof (rule ccontr)
    assume "\<not> pathExists e"
    from sign_pdf_no_source [OF t fs iv this] assms show False by simp
  qed
  obtain n where n: "loadPages e (readFile e) = Some n"
  proof (cases "loadPages e (readFile e)")
    case None
    from sign_pdf_load_fails [OF t fs iv pe None] assms show ?thesis by simp
  next
    case (Some n)
    then show ?thesis by (rule that)
  qed
  obtain pages where r:
    "render_fields e (js_get (JObj (req_body req)) ''signatureImage'') (replicate n []) fs = Inr pages"
  proof (cases "render_fields e (js_get (JObj (req_body req)) ''signatureImage'') (replicate n []) fs")
    case (Inl err)
    from sign_pdf_render_fails [OF t fs iv pe n Inl] assms show ?thesis by simp
  next
    case (Inr pages)
    then show ?thesis by (rule that)
  qed
  obtain a where a: "and_then
       (new_Audit e (js_get (JObj (req_body req)) ''pdfId'')
          (calculateSHA256 e (readFile e))
          (calculateSHA256 e (pdfDoc_save e (readFile e) pages))
          (map audit_entry fs) (newDate e) (req_ip req) (req_userAgent req))
       audit_save = Inr a"
  proof (cases "and_then
       (new_Audit e (js_get (JObj (req_body req)) ''pdfId'')
          (calculateSHA256 e (readFile e))
          (calculateSHA256 e (pdfDoc_save e (readFile e) pages))
          (map audit_entry fs) (newDate e) (req_ip req) (req_userAgent req))
       audit_save")
    case (Inl err)
    from sign_pdf_audit_fails [OF t fs iv pe n r Inl] assms show ?thesis by simp
  next
    case (Inr a)
    then show ?thesis by (rule that)
  qed
  from sign_pdf_success [OF t fs iv pe n r a]
  have "snd (sign_pdf e req) = written e pages @ [AuditSaved a]" by simp
  with t fs iv pe n r a that show ?thesis by blast
qed

subsection \<open>Requests rejected before any document is touched\<close>

text \<open>
  The rejections the route performs. A request whose \<open>pdfId\<close> is missing (falsy) or whose
  \<open>fields\<close> is not an array is answered with status 400; a request with a \<open>pdfId\<close> whose \<open>fields\<close>
  hold no null or undefined entry and at least one entry that fails coordinate validation is
  answered with status 400 and the message that states the number of failing entries. In these
  cases, and also when \<open>fields\<close> holds a null or undefined entry, the request has no effect: the
  source document is not looked up or read, no file is written and no audit record is saved.
\<close>

theorem invalid_request_rejected:
  assumes "pdfId = js_get (JObj (req_body req)) ''pdfId''"
    and "fields' = js_get (JObj (req_body req)) ''fields''"
    and "bad = filter (\<lambda>f. \<not> validateCoordinates (js_get f ''pdfCoordinates'')) (elements fields')"
  shows "(\<not> truthy pdfId \<or> \<not> isArray fields' \<longrightarrow>
            sign_pdf e req =
              (Response 400
                 (ErrorBody ''Missing required fields: pdfId and fields array are required''), [])) \<and>
         (truthy pdfId \<and> isArray fields' \<and> (\<forall>f\<in>set (elements fields'). \<not> nullish f) \<and> bad \<noteq> [] \<longrightarrow>
            sign_pdf e req =
              (Response 400
                 (ErrorBody (''Invalid coordinates for '' @ show_nat (length bad) @ '' field(s)'')), [])) \<and>
         (\<not> truthy pdfId \<or> \<not> isArray fields' \<or> (\<exists>f\<in>set (elements fields'). nullish f) \<or> bad \<noteq> [] \<longrightarrow>
            snd (sign_pdf e req) = [])"
proof (intro conjI impI)
  assume "\<not> truthy pdfId \<or> \<not> isArray fields'"
  then show "sign_pdf e req =
      (Response 400 (ErrorBody ''Missing required fields: pdfId and fields array are required''), [])"
    unfolding assms by (rule sign_pdf_missing)
next
  assume a: "truthy pdfId \<and> isArray fields' \<and> (\<forall>f\<in>set (elements fields'). \<not> nullish f) \<and> bad \<noteq> []"
  then obtain fs where fs: "fields' = JArr fs"
    by (auto simp: isArray_def split: jsval.splits)
  with a have "invalid_fields fs = Inr bad"
    by (simp add: assms(3) elements_def invalid_fields_filter)
  from sign_pdf_invalid [OF _ _ this, of req e] a fs
  show "sign_pdf e req =
      (Response 400 (ErrorBody (''Invalid coordinates for '' @ show_nat (length bad) @ '' field(s)'')), [])"
    by (simp add: assms(1,2))
next
  assume a: "\<not> truthy pdfId \<or> \<not> isArray fields' \<or> (\<exists>f\<in>set (elements fields'). nullish f) \<or> bad \<noteq> []"
  show "snd (sign_pdf e req) = []"
  proof (cases "\<not> truthy pdfId \<or> \<not> isArray fields'")
    case True
    then show ?thesis unfolding assms by (simp add: sign_pdf_missing)
  next
    case False
    then have t: "truthy (js_get (JObj (req_body req)) ''pdfId'')" and arr: "isArray fields'"
      by (simp_all add: assms(1))
    from arr obtain fs where fs: "js_get (JObj (req_body req)) ''fields'' = JArr fs"
      by (auto simp: isArray_def assms(2) split: jsval.splits)
    then have el: "elements fields' = fs" by (simp add: assms(2) elements_def)
    show ?thesis
    proof (cases "invalid_fields fs")
      case (Inl err)
      from sign_pdf_unreadable_field [OF t fs Inl] show ?thesis by simp
    next
      case (Inr bad')
      from invalid_fields_Inr [OF Inr] have "bad' = bad" "\<forall>f\<in>set fs. \<not> nullish f"
        by (simp_all add: assms(3) el)
      with a False el have "bad' \<noteq> []" by auto
      from sign_pdf_invalid [OF t fs Inr this] show ?thesis by simp
    qed
  qed
qed

lemma show_nat_2: "show_nat 2 = ''2''"
  by (simp add: show_nat.simps digit_def)

theorem invalid_request_rejected_witness:
  "sign_pdf demo_env \<lparr> req_body = [(''fields'', JArr [])], req_ip = ''127.0.0.1'', req_userAgent = ''curl'' \<rparr>
     = (Response 400 (ErrorBody ''Missing required fields: pdfId and fields array are required''), []) \<and>
   sign_pdf demo_env
      (demo_request JUndefined
         [demo_field ''date'' JUndefined 0, demo_field ''text'' (JStr ''Alice'') 1,
          demo_field ''radio'' JUndefined (1 / 2)])
     = (Response 400 (ErrorBody ''Invalid coordinates for 2 field(s)''), [])"
proof -
  let ?r1 = "\<lparr> req_body = [(''fields'', JArr [])], req_ip = ''127.0.0.1'', req_userAgent = ''curl'' \<rparr>"
  let ?fs = "[demo_field ''date'' JUndefined 0, demo_field ''text'' (JStr ''Alice'') 1,
          demo_field ''radio'' JUndefined (1 / 2)]"
  let ?r2 = "demo_request JUndefined ?fs"
  have 1: "sign_pdf demo_env ?r1
     = (Response 400 (ErrorBody ''Missing required fields: pdfId and fields array are required''), [])"
    using invalid_request_rejected [OF refl refl refl, of ?r1 demo_env] by simp
  have f: "js_get (JObj (req_body ?r2)) ''fields'' = JArr ?fs"
    and p: "truthy (js_get (JObj (req_body ?r2)) ''pdfId'')"
    by (simp_all add: demo_request_def)
  have b: "filter (\<lambda>f. \<not> validateCoordinates (js_get f ''pdfCoordinates'')) ?fs
     = [demo_field ''date'' JUndefined 0, demo_field ''radio'' JUndefined (1 / 2)]"
    by (simp add: demo_field_simps validateCoordinates_demo)
  have n: "\<forall>f\<in>set ?fs. \<not> nullish f" by (simp add: demo_field_simps)
  have 2: "sign_pdf demo_env ?r2 = (Response 400 (ErrorBody ''Invalid coordinates for 2 field(s)''), [])"
    using invalid_request_rejected [OF refl refl refl, of ?r2 demo_env] p n
    unfolding f elements_def isArray_def jsval.case b
    by (simp add: show_nat_2 [unfolded numeral_2_eq_2])
  from 1 2 show ?thesis by simp
qed

text \<open>
  Claim C2 says that a request in which at least one field fails coordinate validation is
  answered with a client error, without side effects. The code departs from it when \<open>fields\<close>
  also holds a null entry: reading \<open>pdfCoordinates\<close> of that entry throws inside the filter of
  line 72, the outer \<^verbatim>\<open>catch\<close> answers with status 500, and the count of invalid fields is
  never reported, although the first field of the request fails coordinate validation. The
  request has no effect.
\<close>

theorem null_entry_is_server_error:
  "\<not> validateCoordinates (js_get (demo_field ''date'' JUndefined 0) ''pdfCoordinates'') \<and>
   sign_pdf demo_env (demo_request JUndefined [demo_field ''date'' JUndefined 0, JNull])
     = (Response 500 (ErrorDetails ''Failed to sign PDF'' TypeError), [])"
proof -
  let ?fs = "[demo_field ''date'' JUndefined 0, JNull]"
  let ?r = "demo_request JUndefined ?fs"
  have f: "js_get (JObj (req_body ?r)) ''fields'' = JArr ?fs"
    and p: "truthy (js_get (JObj (req_body ?r)) ''pdfId'')"
    by (simp_all add: demo_request_def)
  have "invalid_fields ?fs = Inl TypeError"
    by (simp add: demo_field_simps nullish_def and_then_def)
  from sign_pdf_unreadable_field [OF p f this] show ?thesis
    by (simp add: demo_field_simps validateCoordinates_demo)
qed

theorem null_entry_is_server_error_witness:
  "\<exists>fs. \<not> validateCoordinates (js_get (hd fs) ''pdfCoordinates'') \<and> JNull \<in> set fs \<and>
     status (fst (sign_pdf demo_env (demo_request JUndefined fs))) = 500 \<and>
     snd (sign_pdf demo_env (demo_request JUndefined fs)) = []"
  using null_entry_is_server_error
  by (intro exI [of _ "[demo_field ''date'' JUndefined 0, JNull]"]) simp

subsection \<open>Requests on the example data\<close>

lemma demo_embed_fails: "embed_signature demo_env demo_signature = Inl EmbedError"
  by (simp add: embed_signature_def demo_env_def demo_signature_def starts_with_def Let_def)

lemma demo_request_simps:
  "js_get (JObj (req_body (demo_request s fs))) ''pdfId'' = JStr ''doc1''"
  "js_get (JObj (req_body (demo_request s fs))) ''fields'' = JArr fs"
  "js_get (JObj (req_body (demo_request s fs))) ''signatureImage'' = s"
  "req_ip (demo_request s fs) = ''127.0.0.1''"
  "req_userAgent (demo_request s fs) = ''curl''"
  by (simp_all add: demo_request_def)

lemma demo_env_simps:
  "pathExists demo_env" "readFile demo_env = [37, 80, 68, 70]"
  "loadPages demo_env b = Some 2"
  "calculateSHA256 demo_env b = ''sha'' @ show_nat (length b)"
  "pdfDoc_save demo_env b pages = b @ map length pages"
  "dateNow demo_env = 1700000000000" "newDate demo_env = 1700000000001"
  "newObjectId demo_env = ''65f0c0ffee''" "toLocaleDateString demo_env = ''11/2/2026''"
  "encodable demo_env s = list_all printable s"
  by (simp_all add: demo_env_def encodable_def)


lemma page_at_fraction2: "page_at 2 (pageIndex (3 / 2) 2) = None"
  by (simp add: page_at_def pageIndex_def del: of_int_floor_cancel)

text \<open>A request with one validated field whose rendering throws is answered with status 500.\<close>

lemma demo_single_fails:
  assumes "1 \<le> p"
    and "render_field demo_env sig [[], []] (demo_field t v p) = Inl err"
  shows "sign_pdf demo_env (demo_request sig [demo_field t v p]) =
     (Response 500 (ErrorDetails ''Failed to sign PDF'' err),
      [PathExists ''public/sample.pdf'', ReadFile ''public/sample.pdf''])"
proof -
  let ?f = "demo_field t v p"
  let ?r = "demo_request sig [?f]"
  have t: "truthy (js_get (JObj (req_body ?r)) ''pdfId'')"
    unfolding demo_request_simps by simp
  have iv: "invalid_fields [?f] = Inr []"
    unfolding invalid_fields_none by (simp add: demo_field_simps validateCoordinates_demo assms(1))
  have rs: "render_fields demo_env (js_get (JObj (req_body ?r)) ''signatureImage'') (replicate 2 []) [?f]
     = Inl err"
    unfolding demo_request_simps using assms(2) by (simp add: numeral_2_eq_2 and_then_def)
  from sign_pdf_render_fails [OF t demo_request_simps(2) iv demo_env_simps(1) demo_env_simps(3) rs]
  show ?thesis .
qed

lemma demo_rendered:
  "render_fields demo_env demo_signature (replicate 2 []) demo_fields =
     Inr [[DrawRectangle 10 10 100 20 (rgb 0 0 0) (binary64 0.5) (rgb 1 1 1),
           DrawText ''Alice'' 15 14 12 (rgb 0 0 0)],
          [DrawRectangle 10 10 100 20 (rgb 1 0 0) 1 (rgb 1 (binary64 0.9) (binary64 0.9)),
           DrawText ''SIGNATURE'' 15 14 10 (rgb 1 0 0)]]"
proof -
  have t: "truthy demo_signature" by (simp add: demo_signature_def)
  have p1: "page_at (Suc (Suc 0)) (pageIndex 1 (Suc (Suc 0))) = Some 0"
    and p2: "page_at (Suc (Suc 0)) (pageIndex 2 (Suc (Suc 0))) = Some 1"
    by (simp_all add: page_at_def pageIndex_def)
  show ?thesis
    by (simp add: demo_fields_def numeral_2_eq_2 render_field_def Let_def demo_field_simps
        validateCoordinates_truthy validateCoordinates_demo p1 p2 text_case_on_page
        demo_env_simps printable_def binary64_exact
        signature_case_placeholder [OF t demo_embed_fails] and_then_def)
qed

lemma demo_valid: "invalid_fields demo_fields = Inr []"
  unfolding invalid_fields_none
  by (simp add: demo_fields_def demo_field_simps validateCoordinates_demo)

lemma demo_audited:
  "and_then
     (new_Audit demo_env (JStr ''doc1'') h1 h2 (map audit_entry demo_fields) ts ip ua)
     audit_save =
   (if h1 \<noteq> [] \<and> h2 \<noteq> [] then
      Inr \<lparr> audit_id = ''65f0c0ffee'', audit_pdfId = ''doc1'', audit_originalHash = h1,
            audit_signedHash = h2,
            audit_fields =
              [\<lparr> field_type = ''text'',
                 field_coordinates = \<lparr> coord_x = 10, coord_y = 10, coord_width = 100,
                                      coord_height = 20, coord_page = 1 \<rparr>,
                 field_value = Some ''Alice'' \<rparr>,
               \<lparr> field_type = ''signature'',
                 field_coordinates = \<lparr> coord_x = 10, coord_y = 10, coord_width = 100,
                                      coord_height = 20, coord_page = 2 \<rparr>,
                 field_value = Some [] \<rparr>],
            audit_timestamp = ts, audit_ipAddress = ip, audit_userAgent = ua,
            audit_metadata = \<lparr> totalFields = 2, hasSignature = True, pageCount = 2 \<rparr> \<rparr>
    else Inl ValidationError)"
  by (simp add: new_Audit_def and_then_def string_path_def demo_fields_def audit_entry_def
      demo_field_simps cast_field_def coordinates_path_def number_path_def value_path_def
      demo_coordinates_def demo_env_simps audit_save_def validate_def valid_field_def
      field_types_def pre_save_def)

subsection \<open>Page selection\<close>

text \<open>
  The page clamp. A field that passed validation and asks for a whole page number \<open>p\<close>, or for
  any \<open>p\<close> greater than the number \<open>n \<ge> 1\<close> of pages, and whose texts \<^verbatim>\<open>drawText\<close> accepts, is
  rendered on the page of index \<open>min (p - 1) (n - 1)\<close>, the last page when \<open>p > n\<close>, and
  rendering it throws nothing: the result differs from \<open>pages\<close> on that page only, by the
  operations appended to it, of which there is at least one exactly when the field draws.
\<close>

theorem page_clamp:
  assumes "\<not> nullish f"
    and "validateCoordinates (js_get f ''pdfCoordinates'')"
    and "p = num_of (js_get (js_get f ''pdfCoordinates'') ''page'')"
    and "1 \<le> length pages"
    and "p \<in> \<int> \<or> real (length pages) < p"
    and "texts_drawable e f"
  shows "\<exists>k ops. k < length pages \<and>
           real k = min (p - 1) (real (length pages) - 1) \<and>
           (real (length pages) < p \<longrightarrow> k = length pages - 1) \<and>
           page_at (length pages) (pageIndex p (length pages)) = Some k \<and>
           render_field e sig pages f = Inr (pages[k := pages ! k @ ops]) \<and>
           (ops \<noteq> []) = draws sig f"
proof -
  from assms(2,3) have p1: "1 \<le> p" by (simp add: validateCoordinates_page)
  from p1 assms(4,5) obtain k where k: "page_at (length pages) (pageIndex p (length pages)) = Some k"
    and kn: "k < length pages" and kr: "real k = min (p - 1) (real (length pages) - 1)"
    and last: "real (length pages) < p \<longrightarrow> k = length pages - 1"
    by (rule page_found)
  from render_field_on_page [OF assms(1) k [unfolded assms(3)] assms(6), of sig]
  obtain ops where "render_field e sig pages f = Inr (pages[k := pages ! k @ ops])"
    and "(ops \<noteq> []) = draws sig f" by blast
  with k kn kr last show ?thesis by blast
qed

lemma demo_date_drawable: "texts_drawable demo_env (demo_field ''date'' v p)"
  by (simp add: texts_drawable_def demo_field_simps demo_env_simps printable_def)

theorem page_clamp_witness:
  "page_at 2 (pageIndex 5 2) = Some 1 \<and>
   draws JUndefined (demo_field ''date'' JUndefined 5) \<and>
   (\<exists>op ops. render_field demo_env JUndefined [[], []] (demo_field ''date'' JUndefined 5)
      = Inr [[], op # ops])"
proof -
  have "(5::real) \<in> \<int>" by simp
  then have "(5::real) \<in> \<int> \<or> real (length [[], [] :: page]) < 5" by simp
  from page_clamp [of "demo_field ''date'' JUndefined 5" 5 "[[], []]" demo_env JUndefined,
      OF _ _ _ _ this demo_date_drawable]
  obtain k ops where "page_at (length [[], [] :: page]) (pageIndex 5 (length [[], [] :: page])) = Some k"
    and "real (length [[], [] :: page]) < 5 \<longrightarrow> k = length [[], [] :: page] - 1"
    and "render_field demo_env JUndefined [[], []] (demo_field ''date'' JUndefined 5)
           = Inr ([[], []][k := [[], []] ! k @ ops])"
    and "(ops \<noteq> []) = draws JUndefined (demo_field ''date'' JUndefined 5)"
    by (auto simp: demo_field_simps validateCoordinates_demo)
  moreover have d: "draws JUndefined (demo_field ''date'' JUndefined 5)"
    by (simp add: draws_def demo_field_simps validateCoordinates_truthy validateCoordinates_demo)
  ultimately have "page_at 2 (pageIndex 5 2) = Some 1"
    and "render_field demo_env JUndefined [[], []] (demo_field ''date'' JUndefined 5) = Inr [[], ops]"
    and "ops \<noteq> []"
    by (simp_all add: numeral_2_eq_2)
  with d show ?thesis by (cases ops) auto
qed

text \<open>
  Claim C5 says that a field with a page number \<open>p \<ge> 1\<close> is drawn on the page of index
  \<open>min (p - 1) (n - 1)\<close> of a document of \<open>n \<ge> 1\<close> pages. The code departs from it at a page
  number that is not whole and lies below the page count: the coordinates with page 1.5 pass
  validation, the index \<open>min (1.5 - 1) (2 - 1) = 0.5\<close> is no page of a document of two pages,
  the date field is not drawn on any page, \<^verbatim>\<open>drawRectangle\<close> is called on undefined, and the
  request is answered with status 500.
\<close>

theorem fractional_page_not_clamped:
  "validateCoordinates (demo_coordinates (3 / 2)) \<and>
   pageIndex (3 / 2) 2 = 1 / 2 \<and>
   page_at 2 (pageIndex (3 / 2) 2) = None \<and>
   render_field demo_env JUndefined [[], []] (demo_field ''date'' JUndefined (3 / 2)) = Inl TypeError \<and>
   sign_pdf demo_env (demo_request JUndefined [demo_field ''date'' JUndefined (3 / 2)]) =
     (Response 500 (ErrorDetails ''Failed to sign PDF'' TypeError),
      [PathExists ''public/sample.pdf'', ReadFile ''public/sample.pdf''])"
proof -
  have r: "render_field demo_env JUndefined [[], []] (demo_field ''date'' JUndefined (3 / 2)) = Inl TypeError"
    by (simp add: validateCoordinates_demo page_at_fraction2 [unfolded numeral_2_eq_2]
        render_field_def Let_def demo_field_simps validateCoordinates_truthy other_cases_off_page)
  have "(1::real) \<le> 3 / 2" by simp
  from demo_single_fails [OF this r] r page_at_fraction2 show ?thesis
    by (simp add: validateCoordinates_demo pageIndex_def)
qed

theorem fractional_page_not_clamped_witness:
  "\<exists>f p. p = num_of (js_get (js_get f ''pdfCoordinates'') ''page'') \<and> 1 \<le> p \<and>
     validateCoordinates (js_get f ''pdfCoordinates'') \<and>
     page_at 2 (pageIndex p 2) = None \<and>
     status (fst (sign_pdf demo_env (demo_request JUndefined [f]))) = 500"
  using fractional_page_not_clamped
  by (intro exI [of _ "demo_field ''date'' JUndefined (3 / 2)"] exI [of _ "3 / 2"])
    (simp add: demo_field_simps)

subsection \<open>Text fields\<close>




subsection \<open>The values kept in the audit record\<close>

lemma value_path_undefined: "value_path e JUndefined = Inr (Some [])"
  by (simp add: value_path_def)

lemma value_path_string: "value_path e (JStr s) = Inr (Some s)"
  by (simp add: value_path_def)

lemma entry_value_redacted:
  "js_get f ''type'' \<noteq> JStr ''text'' \<Longrightarrow> js_get (audit_entry f) ''value'' = JUndefined"
  by (simp add: audit_entry_def)

lemma saved_audit_fields:
  "and_then (new_Audit e pdfId oh sh rs ts ip ua) audit_save = Inr a \<Longrightarrow>
   cast_fields e rs = Inr (audit_fields a)"
  by (auto simp: and_then_Inr_iff new_Audit_Inr_iff audit_save_Inr_iff audit_fields_pre_save)

text \<open>
  Claim C7. A request answered with status 200 has saved exactly one audit record, as its last
  effect. Field by field, the record keeps the value of a text field (as the schema casts it: a
  string as it is), and for a field of any other type the constructor is handed undefined and
  the record holds the default of the schema, the empty string, whatever the request carried.
\<close>

theorem audit_values_redacted:
  assumes "status (fst (sign_pdf e req)) = 200"
    and "fs = elements (js_get (JObj (req_body req)) ''fields'')"
  shows "\<exists>a effs. snd (sign_pdf e req) = effs @ [AuditSaved a] \<and>
           (\<forall>a'. AuditSaved a' \<notin> set effs) \<and>
           list_all2
             (\<lambda>f s. (js_get f ''type'' = JStr ''text'' \<longrightarrow>
                       value_path e (js_get f ''value'') = Inr (field_value s) \<and>
                       (\<forall>v. js_get f ''value'' = JStr v \<longrightarrow> field_value s = Some v)) \<and>
                    (js_get f ''type'' \<noteq> JStr ''text'' \<longrightarrow>
                       js_get (audit_entry f) ''value'' = JUndefined \<and> field_value s = Some []))
             fs (audit_fields a)"
proof -
  from assms(1) obtain fs' n pages a where
    fs': "js_get (JObj (req_body req)) ''fields'' = JArr fs'"
    and au: "and_then
       (new_Audit e (js_get (JObj (req_body req)) ''pdfId'')
          (calculateSHA256 e (readFile e))
          (calculateSHA256 e (pdfDoc_save e (readFile e) pages))
          (map audit_entry fs') (newDate e) (req_ip req) (req_userAgent req))
       audit_save = Inr a"
    and effs: "snd (sign_pdf e req) = written e pages @ [AuditSaved a]"
    by (rule sign_pdf_200D)
  from fs' have fs: "fs' = fs" by (simp add: assms(2) elements_def)
  from saved_audit_fields [OF au]
  have c: "list_all2 (\<lambda>r s. cast_field e r = Inr s) (map audit_entry fs) (audit_fields a)"
    by (simp add: cast_fields_Inr_iff fs)
  have "list_all2
             (\<lambda>f s. (js_get f ''type'' = JStr ''text'' \<longrightarrow>
                       value_path e (js_get f ''value'') = Inr (field_value s) \<and>
                       (\<forall>v. js_get f ''value'' = JStr v \<longrightarrow> field_value s = Some v)) \<and>
                    (js_get f ''type'' \<noteq> JStr ''text'' \<longrightarrow>
                       js_get (audit_entry f) ''value'' = JUndefined \<and> field_value s = Some []))
             fs (audit_fields a)"
    using c unfolding list_all2_map1
  proof (rule list_all2_mono)
    fix f s
    assume "cast_field e (audit_entry f) = Inr s"
    then have v: "value_path e (if js_get f ''type'' = JStr ''text'' then js_get f ''value'' else JUndefined)
       = Inr (field_value s)"
      by (simp add: cast_field_entry)
    show "(js_get f ''type'' = JStr ''text'' \<longrightarrow>
                       value_path e (js_get f ''value'') = Inr (field_value s) \<and>
                       (\<forall>v. js_get f ''value'' = JStr v \<longrightarrow> field_value s = Some v)) \<and>
                    (js_get f ''type'' \<noteq> JStr ''text'' \<longrightarrow>
                       js_get (audit_entry f) ''value'' = JUndefined \<and> field_value s = Some [])"
      using v by (auto simp: value_path_string value_path_undefined entry_value_redacted)
  qed
  moreover have "\<forall>a'. AuditSaved a' \<notin> set (written e pages)"
    by (simp add: written_def)
  ultimately show ?thesis using effs by blast
qed

lemma demo_signed:
  "\<exists>b a. sign_pdf demo_env (demo_request demo_signature demo_fields) =
     (Response 200 b,
      written demo_env
        [[DrawRectangle 10 10 100 20 (rgb 0 0 0) (binary64 0.5) (rgb 1 1 1),
          DrawText ''Alice'' 15 14 12 (rgb 0 0 0)],
         [DrawRectangle 10 10 100 20 (rgb 1 0 0) 1 (rgb 1 (binary64 0.9) (binary64 0.9)),
          DrawText ''SIGNATURE'' 15 14 10 (rgb 1 0 0)]] @ [AuditSaved a])"
proof -
  have t: "truthy (js_get (JObj (req_body (demo_request demo_signature demo_fields))) ''pdfId'')"
    unfolding demo_request_simps by simp
  have a: "\<exists>a. and_then
       (new_Audit demo_env (js_get (JObj (req_body (demo_request demo_signature demo_fields))) ''pdfId'')
          (calculateSHA256 demo_env (readFile demo_env))
          (calculateSHA256 demo_env (pdfDoc_save demo_env (readFile demo_env) pages))
          (map audit_entry demo_fields) (newDate demo_env)
          (req_ip (demo_request demo_signature demo_fields))
          (req_userAgent (demo_request demo_signature demo_fields)))
       audit_save = Inr a" for pages
    unfolding demo_request_simps demo_audited
    by (simp add: demo_env_simps(4))
  then obtain a where a: "and_then
       (new_Audit demo_env (js_get (JObj (req_body (demo_request demo_signature demo_fields))) ''pdfId'')
          (calculateSHA256 demo_env (readFile demo_env))
          (calculateSHA256 demo_env (pdfDoc_save demo_env (readFile demo_env)
             [[DrawRectangle 10 10 100 20 (rgb 0 0 0) (binary64 0.5) (rgb 1 1 1),
               DrawText ''Alice'' 15 14 12 (rgb 0 0 0)],
              [DrawRectangle 10 10 100 20 (rgb 1 0 0) 1 (rgb 1 (binary64 0.9) (binary64 0.9)),
               DrawText ''SIGNATURE'' 15 14 10 (rgb 1 0 0)]]))
          (map audit_entry demo_fields) (newDate demo_env)
          (req_ip (demo_request demo_signature demo_fields))
          (req_userAgent (demo_request demo_signature demo_fields)))
       audit_save = Inr a"
    by blast
  have r: "render_fields demo_env
      (js_get (JObj (req_body (demo_request demo_signature demo_fields))) ''signatureImage'')
      (replicate 2 []) demo_fields =
     Inr [[DrawRectangle 10 10 100 20 (rgb 0 0 0) (binary64 0.5) (rgb 1 1 1),
           DrawText ''Alice'' 15 14 12 (rgb 0 0 0)],
          [DrawRectangle 10 10 100 20 (rgb 1 0 0) 1 (rgb 1 (binary64 0.9) (binary64 0.9)),
           DrawText ''SIGNATURE'' 15 14 10 (rgb 1 0 0)]]"
    unfolding demo_request_simps by (rule demo_rendered)
  from sign_pdf_success [OF t demo_request_simps(2) demo_valid demo_env_simps(1) demo_env_simps(3) r a]
  show ?thesis by blast
qed

lemma demo_fields_types:
  "map (\<lambda>f. js_get f ''type'') demo_fields = [JStr ''text'', JStr ''signature'']"
  "map (\<lambda>f. js_get f ''value'') demo_fields = [JStr ''Alice'', JStr ''iVBORw0KGgo'']"
  by (simp_all add: demo_fields_def demo_field_simps)

theorem audit_values_redacted_witness:
  "\<exists>a effs. snd (sign_pdf demo_env (demo_request demo_signature demo_fields)) = effs @ [AuditSaved a] \<and>
     map (\<lambda>f. js_get f ''value'') demo_fields = [JStr ''Alice'', JStr ''iVBORw0KGgo''] \<and>
     map field_value (audit_fields a) = [Some ''Alice'', Some []]"
proof -
  from demo_signed have s: "status (fst (sign_pdf demo_env (demo_request demo_signature demo_fields))) = 200"
    by auto
  have e: "demo_fields = elements (js_get (JObj (req_body (demo_request demo_signature demo_fields))) ''fields'')"
    unfolding demo_request_simps by (simp add: elements_def)
  from audit_values_redacted [OF s e] obtain a effs where
    1: "snd (sign_pdf demo_env (demo_request demo_signature demo_fields)) = effs @ [AuditSaved a]"
    and 2: "list_all2
             (\<lambda>f s. (js_get f ''type'' = JStr ''text'' \<longrightarrow>
                       value_path demo_env (js_get f ''value'') = Inr (field_value s) \<and>
                       (\<forall>v. js_get f ''value'' = JStr v \<longrightarrow> field_value s = Some v)) \<and>
                    (js_get f ''type'' \<noteq> JStr ''text'' \<longrightarrow>
                       js_get (audit_entry f) ''value'' = JUndefined \<and> field_value s = Some []))
             demo_fields (audit_fields a)"
    by blast
  from 2 have 3: "map field_value (audit_fields a) = [Some ''Alice'', Some []]"
    by (auto simp: demo_fields_def demo_field_simps list_all2_Cons1)
  show ?thesis
    by (intro exI [of _ a] exI [of _ effs] conjI) (rule 1, rule demo_fields_types(2), rule 3)
qed

subsection \<open>A field of unknown type\<close>

lemma unknown_type_invalid:
  assumes "cast_fields e (map audit_entry fs) = Inr fs'"
    and "f \<in> set fs" "js_get f ''type'' = JStr t" "t \<notin> set field_types"
  shows "\<not> list_all valid_field fs'"
proof -
  from assms(1) have "list_all2 (\<lambda>f s. cast_field e (audit_entry f) = Inr s) fs fs'"
    by (simp add: cast_fields_Inr_iff list_all2_map1)
  then have l: "length fs = length fs'"
    and a: "\<forall>i<length fs. cast_field e (audit_entry (fs ! i)) = Inr (fs' ! i)"
    by (simp_all add: list_all2_conv_all_nth)
  from assms(2) obtain i where i: "i < length fs" "fs ! i = f"
    by (auto simp: in_set_conv_nth)
  define s where "s = fs' ! i"
  from i l have s: "s \<in> set fs'" by (simp add: s_def)
  from a i have "cast_field e (audit_entry f) = Inr s" by (auto simp: s_def)
  then have "string_path e (JStr t) = Inr (field_type s)"
    by (simp add: cast_field_entry assms(3))
  then have "field_type s = t" by (simp add: string_path_def)
  with assms(4) have "\<not> valid_field s" by (simp add: valid_field_def)
  with s show ?thesis by (auto simp: list_all_iff)
qed

lemma unknown_type_not_saved:
  assumes "f \<in> set fs" "js_get f ''type'' = JStr t" "t \<notin> set field_types"
  shows "and_then (new_Audit e pdfId h1 h2 (map audit_entry fs) ts ip ua) audit_save
           = Inl ValidationError"
proof (cases "new_Audit e pdfId h1 h2 (map audit_entry fs) ts ip ua")
  case (Inl err)
  with new_Audit_error [OF Inl] show ?thesis by (simp add: and_then_def)
next
  case (Inr a)
  then have "cast_fields e (map audit_entry fs) = Inr (audit_fields a)"
    by (auto simp: new_Audit_Inr_iff)
  from unknown_type_invalid [OF this assms] have "\<not> validate a" by (simp add: validate_def)
  with Inr show ?thesis by (simp add: and_then_def audit_save_def)
qed

text \<open>
  Claim C9. Take a request that passes validation, whose source document is found and loaded
  and whose fields are rendered without an exception, and a field of it whose type is a string
  outside the five of the schema. The renderer leaves every document unchanged on that field,
  and the request is answered with status 500 and a validation error after the signed file and
  its public copy have been written.
\<close>

theorem unknown_type_fails_after_write:
  assumes "truthy (js_get (JObj (req_body req)) ''pdfId'')"
    and "js_get (JObj (req_body req)) ''fields'' = JArr fs"
    and "\<forall>f\<in>set fs. \<not> nullish f \<and> validateCoordinates (js_get f ''pdfCoordinates'')"
    and "pathExists e" and "loadPages e (readFile e) = Some n"
    and "render_fields e (js_get (JObj (req_body req)) ''signatureImage'') (replicate n []) fs = Inr pages"
    and "f \<in> set fs" and "js_get f ''type'' = JStr t" and "t \<notin> set field_types"
  shows "(\<forall>sg pages0. render_field e sg pages0 f = Inr pages0) \<and>
         fst (sign_pdf e req) = Response 500 (ErrorDetails ''Failed to sign PDF'' ValidationError) \<and>
         (\<exists>name bytes. snd (sign_pdf e req) =
            [PathExists ''public/sample.pdf'', ReadFile ''public/sample.pdf'',
             WriteFile (''signed-pdfs/'' @ name) bytes,
             CopyFile (''signed-pdfs/'' @ name) (''public/'' @ name)])"
proof -
  from assms(3,7) have nn: "\<not> nullish f" by blast
  from assms(8,9) have "\<not> draws sg f" for sg
    by (auto simp: draws_def field_types_def)
  with nn have skip: "\<forall>sg pages0. render_field e sg pages0 f = Inr pages0"
    by (simp add: render_field_no_draw)
  from assms(3) have iv: "invalid_fields fs = Inr []" by (simp add: invalid_fields_none)
  from sign_pdf_audit_fails [OF assms(1,2) iv assms(4,5,6) unknown_type_not_saved [OF assms(7,8,9)]]
  have "sign_pdf e req =
    (Response 500 (ErrorDetails ''Failed to sign PDF'' ValidationError), written e pages)" .
  then have "fst (sign_pdf e req) = Response 500 (ErrorDetails ''Failed to sign PDF'' ValidationError)"
    and "snd (sign_pdf e req) =
            [PathExists ''public/sample.pdf'', ReadFile ''public/sample.pdf'',
             WriteFile (''signed-pdfs/'' @ (''signed_'' @ show_nat (dateNow e) @ ''.pdf''))
               (pdfDoc_save e (readFile e) pages),
             CopyFile (''signed-pdfs/'' @ (''signed_'' @ show_nat (dateNow e) @ ''.pdf''))
               (''public/'' @ (''signed_'' @ show_nat (dateNow e) @ ''.pdf''))]"
    by (simp_all add: written_def)
  with skip show ?thesis by blast
qed

lemma demo_checkbox_rendered:
  "render_fields demo_env JUndefined (replicate 2 []) [demo_field ''checkbox'' (JStr ''on'') 1]
     = Inr [[], []]"
  by (simp add: numeral_2_eq_2 render_field_def Let_def demo_field_simps and_then_def
      validateCoordinates_truthy validateCoordinates_demo)

theorem unknown_type_fails_after_write_witness:
  "render_field demo_env JUndefined [[], []] (demo_field ''checkbox'' (JStr ''on'') 1) = Inr [[], []] \<and>
   fst (sign_pdf demo_env (demo_request JUndefined [demo_field ''checkbox'' (JStr ''on'') 1]))
     = Response 500 (ErrorDetails ''Failed to sign PDF'' ValidationError) \<and>
   (\<exists>name bytes.
      snd (sign_pdf demo_env (demo_request JUndefined [demo_field ''checkbox'' (JStr ''on'') 1])) =
        [PathExists ''public/sample.pdf'', ReadFile ''public/sample.pdf'',
         WriteFile (''signed-pdfs/'' @ name) bytes,
         CopyFile (''signed-pdfs/'' @ name) (''public/'' @ name)])"
proof -
  let ?fs = "[demo_field ''checkbox'' (JStr ''on'') 1]"
  let ?r = "demo_request JUndefined ?fs"
  have t: "truthy (js_get (JObj (req_body ?r)) ''pdfId'')"
    unfolding demo_request_simps by simp
  have v: "\<forall>f\<in>set ?fs. \<not> nullish f \<and> validateCoordinates (js_get f ''pdfCoordinates'')"
    by (simp add: demo_field_simps validateCoordinates_demo)
  have r: "render_fields demo_env (js_get (JObj (req_body ?r)) ''signatureImage'') (replicate 2 []) ?fs
     = Inr [[], []]"
    unfolding demo_request_simps by (rule demo_checkbox_rendered)
  have m: "demo_field ''checkbox'' (JStr ''on'') 1 \<in> set ?fs" by simp
  have u: "''checkbox'' \<notin> set field_types" by (simp add: field_types_def)
  from unknown_type_fails_after_write [OF t demo_request_simps(2) v demo_env_simps(1)
      demo_env_simps(3) r m demo_field_simps(2) u]
  show ?thesis by blast
qed

subsection \<open>Signature fields\<close>

text \<open>
  The branches of a signature field. A signature field that passed validation, on a document
  with at least one page, whose page number is whole or greater than the page count: when the
  request carries no signature image the renderer draws nothing; when it carries one, the
  renderer throws nothing and draws on the page of the field, the placeholder rectangle (red
  border of width 1) and the text \<open>SIGNATURE\<close> if the decoding or embedding throws, and the
  image fitted into the box otherwise.
\<close>

theorem signature_field_rendering:
  assumes "\<not> nullish f"
    and "js_get f ''type'' = JStr ''signature''"
    and "validateCoordinates (js_get f ''pdfCoordinates'')"
    and "c = js_get f ''pdfCoordinates''"
    and "1 \<le> length pages"
    and "num_of (js_get c ''page'') \<in> \<int> \<or> real (length pages) < num_of (js_get c ''page'')"
    and "x = num_of (js_get c ''x'')" and "y = num_of (js_get c ''y'')"
    and "w = num_of (js_get c ''width'')" and "h = num_of (js_get c ''height'')"
  shows "(\<not> truthy sig \<longrightarrow> render_field e sig pages f = Inr pages) \<and>
         (truthy sig \<longrightarrow>
            (\<exists>k<length pages.
               real k = min (num_of (js_get c ''page'') - 1) (real (length pages) - 1) \<and>
               (\<forall>err. embed_signature e sig = Inl err \<longrightarrow>
                  render_field e sig pages f =
                    Inr (pages[k := pages ! k @
                      [DrawRectangle x y w h (rgb 1 0 0) 1 (rgb 1 (binary64 0.9) (binary64 0.9)),
                       DrawText ''SIGNATURE'' (binary64 (x + 5))
                         (binary64 (binary64 (y + binary64 (h / 2)) - 6)) 10 (rgb 1 0 0)]])) \<and>
               (\<forall>img. embed_signature e sig = Inr img \<longrightarrow>
                  render_field e sig pages f =
                    Inr (pages[k := pages ! k @
                      [DrawImage img
                         (binary64 (x + xOffset (calculateImageDimensions img w h)))
                         (binary64 (y + yOffset (calculateImageDimensions img w h)))
                         (width (calculateImageDimensions img w h))
                         (height (calculateImageDimensions img w h)) (binary64 0.9)]]))))"
proof -
  from assms(3) have t: "truthy (js_get f ''pdfCoordinates'')" by (rule validateCoordinates_truthy)
  from assms(3,4) have p1: "1 \<le> num_of (js_get c ''page'')" by (simp add: validateCoordinates_page)
  from p1 assms(5,6) obtain k
    where k: "page_at (length pages) (pageIndex (num_of (js_get c ''page'')) (length pages)) = Some k"
      and kn: "k < length pages"
      and kr: "real k = min (num_of (js_get c ''page'') - 1) (real (length pages) - 1)"
    by (rule page_found)
  have d: "render_field e sig pages f = signature_case e sig (Some k) x y w h pages"
    using render_field_dispatch [OF assms(1) t, of e sig pages] k
    by (simp add: Let_def assms(2,4,7-10))
  have 1: "\<not> truthy sig \<longrightarrow> render_field e sig pages f = Inr pages"
    by (simp add: d signature_case_none)
  have 2: "\<exists>k<length pages.
               real k = min (num_of (js_get c ''page'') - 1) (real (length pages) - 1) \<and>
               (\<forall>err. embed_signature e sig = Inl err \<longrightarrow>
                  render_field e sig pages f =
                    Inr (pages[k := pages ! k @
                      [DrawRectangle x y w h (rgb 1 0 0) 1 (rgb 1 (binary64 0.9) (binary64 0.9)),
                       DrawText ''SIGNATURE'' (binary64 (x + 5))
                         (binary64 (binary64 (y + binary64 (h / 2)) - 6)) 10 (rgb 1 0 0)]])) \<and>
               (\<forall>img. embed_signature e sig = Inr img \<longrightarrow>
                  render_field e sig pages f =
                    Inr (pages[k := pages ! k @
                      [DrawImage img
                         (binary64 (x + xOffset (calculateImageDimensions img w h)))
                         (binary64 (y + yOffset (calculateImageDimensions img w h)))
                         (width (calculateImageDimensions img w h))
                         (height (calculateImageDimensions img w h)) (binary64 0.9)]]))"
    if ts: "truthy sig"
    using kn kr
    by (intro exI [of _ k])
      (simp add: d signature_case_placeholder [OF ts _ kn] signature_case_image [OF ts])
  from 1 2 show ?thesis by blast
qed

theorem signature_field_rendering_witness:
  "embed_signature demo_env demo_signature = Inl EmbedError \<and>
   render_field demo_env demo_signature [[], []] (demo_field ''signature'' (JStr ''iVBORw0KGgo'') 2) =
     Inr [[], [DrawRectangle 10 10 100 20 (rgb 1 0 0) 1 (rgb 1 (binary64 0.9) (binary64 0.9)),
               DrawText ''SIGNATURE'' 15 14 10 (rgb 1 0 0)]] \<and>
   render_field demo_env JUndefined [[], []] (demo_field ''signature'' (JStr ''iVBORw0KGgo'') 2) =
     Inr [[], []]"
proof -
  let ?f = "demo_field ''signature'' (JStr ''iVBORw0KGgo'') 2"
  have v: "validateCoordinates (js_get ?f ''pdfCoordinates'')"
    by (simp add: demo_field_simps validateCoordinates_demo)
  have n: "1 \<le> length [[], [] :: page]" by simp
  have p: "num_of (js_get (demo_coordinates 2) ''page'') \<in> \<int> \<or>
      real (length [[], [] :: page]) < num_of (js_get (demo_coordinates 2) ''page'')"
    by (simp add: demo_field_simps)
  have t: "truthy demo_signature" by (simp add: demo_signature_def)
  note a = signature_field_rendering [where f = ?f and c = "demo_coordinates 2"
      and e = demo_env and sig = demo_signature and pages = "[[], []]",
      OF demo_field_simps(1) demo_field_simps(2) v demo_field_simps(4) [symmetric] n p
        refl refl refl refl]
  note b = signature_field_rendering [where f = ?f and c = "demo_coordinates 2"
      and e = demo_env and sig = JUndefined and pages = "[[], []]",
      OF demo_field_simps(1) demo_field_simps(2) v demo_field_simps(4) [symmetric] n p
        refl refl refl refl]
  from a t demo_embed_fails obtain k where "real k = min (num_of (js_get (demo_coordinates 2) ''page'') - 1)
        (real (length [[], [] :: page]) - 1)"
    and r: "render_field demo_env demo_signature [[], []] ?f =
      Inr ([[], []][k := [[], []] ! k @
        [DrawRectangle (num_of (js_get (demo_coordinates 2) ''x''))
           (num_of (js_get (demo_coordinates 2) ''y''))
           (num_of (js_get (demo_coordinates 2) ''width''))
           (num_of (js_get (demo_coordinates 2) ''height'')) (rgb 1 0 0) 1
           (rgb 1 (binary64 0.9) (binary64 0.9)),
         DrawText ''SIGNATURE'' (binary64 (num_of (js_get (demo_coordinates 2) ''x'') + 5))
           (binary64 (binary64 (num_of (js_get (demo_coordinates 2) ''y'') +
              binary64 (num_of (js_get (demo_coordinates 2) ''height'') / 2)) - 6))
           10 (rgb 1 0 0)]])"
    by blast
  then have "k = 1" by (simp add: demo_field_simps)
  with r have "render_field demo_env demo_signature [[], []] ?f =
     Inr [[], [DrawRectangle 10 10 100 20 (rgb 1 0 0) 1 (rgb 1 (binary64 0.9) (binary64 0.9)),
               DrawText ''SIGNATURE'' 15 14 10 (rgb 1 0 0)]]"
    by (simp add: demo_field_simps binary64_exact)
  moreover from b have "render_field demo_env JUndefined [[], []] ?f = Inr [[], []]"
    by simp
  ultimately show ?thesis using demo_embed_fails by simp
qed

text \<open>
  A request whose signature image cannot be embedded is answered with status 200, and the
  document that is saved and written holds, on the page of its signature field, the
  placeholder rectangle and the text \<open>SIGNATURE\<close>.
\<close>

theorem placeholder_request_succeeds:
  "embed_signature demo_env demo_signature = Inl EmbedError \<and>
   (\<exists>b a. sign_pdf demo_env (demo_request demo_signature demo_fields) =
     (Response 200 b,
      [PathExists ''public/sample.pdf'', ReadFile ''public/sample.pdf'',
       WriteFile (''signed-pdfs/'' @ ''signed_'' @ show_nat (dateNow demo_env) @ ''.pdf'')
         (pdfDoc_save demo_env (readFile demo_env)
            [[DrawRectangle 10 10 100 20 (rgb 0 0 0) (binary64 0.5) (rgb 1 1 1),
              DrawText ''Alice'' 15 14 12 (rgb 0 0 0)],
             [DrawRectangle 10 10 100 20 (rgb 1 0 0) 1 (rgb 1 (binary64 0.9) (binary64 0.9)),
              DrawText ''SIGNATURE'' 15 14 10 (rgb 1 0 0)]]),
       CopyFile (''signed-pdfs/'' @ ''signed_'' @ show_nat (dateNow demo_env) @ ''.pdf'')
         (''public/'' @ ''signed_'' @ show_nat (dateNow demo_env) @ ''.pdf''),
       AuditSaved a]))"
  using demo_signed demo_embed_fails by (simp add: written_def)

theorem placeholder_request_succeeds_witness:
  "\<exists>req. js_get (JObj (req_body req)) ''signatureImage'' = demo_signature \<and>
     status (fst (sign_pdf demo_env req)) = 200 \<and>
     length (snd (sign_pdf demo_env req)) = 5"
proof -
  from placeholder_request_succeeds
  have "status (fst (sign_pdf demo_env (demo_request demo_signature demo_fields))) = 200"
    and "length (snd (sign_pdf demo_env (demo_request demo_signature demo_fields))) = 5"
    by auto
  with demo_request_simps(3) [of demo_signature demo_fields] show ?thesis by blast
qed

text \<open>
  Claim C6 says that a signature field whose image cannot be decoded or embedded is drawn as
  the placeholder instead of failing, and that the request still succeeds. The code departs
  from it at a page number that is not whole and lies below the page count: the signature
  field with page 1.5 passes validation, the embedding of the image throws, and so does the
  \<^verbatim>\<open>catch\<close> block, whose \<^verbatim>\<open>drawRectangle\<close> is called on undefined; no placeholder is drawn and
  the request is answered with status 500.
\<close>

theorem placeholder_fails_on_fractional_page:
  "validateCoordinates (js_get (demo_field ''signature'' JUndefined (3 / 2)) ''pdfCoordinates'') \<and>
   truthy demo_signature \<and>
   embed_signature demo_env demo_signature = Inl EmbedError \<and>
   render_field demo_env demo_signature [[], []] (demo_field ''signature'' JUndefined (3 / 2))
     = Inl TypeError \<and>
   sign_pdf demo_env (demo_request demo_signature [demo_field ''signature'' JUndefined (3 / 2)]) =
     (Response 500 (ErrorDetails ''Failed to sign PDF'' TypeError),
      [PathExists ''public/sample.pdf'', ReadFile ''public/sample.pdf''])"
proof -
  have t: "truthy demo_signature" by (simp add: demo_signature_def)
  have r: "render_field demo_env demo_signature [[], []] (demo_field ''signature'' JUndefined (3 / 2))
     = Inl TypeError"
    by (simp add: render_field_def Let_def demo_field_simps validateCoordinates_truthy
        validateCoordinates_demo page_at_fraction2 [unfolded numeral_2_eq_2]
        signature_case_off_page [OF t])
  have "(1::real) \<le> 3 / 2" by simp
  from demo_single_fails [OF this r] r t demo_embed_fails show ?thesis
    by (simp add: demo_field_simps validateCoordinates_demo)
qed

theorem placeholder_fails_on_fractional_page_witness:
  "\<exists>f sig err. js_get f ''type'' = JStr ''signature'' \<and>
     validateCoordinates (js_get f ''pdfCoordinates'') \<and>
     truthy sig \<and> embed_signature demo_env sig = Inl err \<and>
     status (fst (sign_pdf demo_env (demo_request sig [f]))) = 500"
  using placeholder_fails_on_fractional_page
  by (intro exI [of _ "demo_field ''signature'' JUndefined (3 / 2)"] exI [of _ demo_signature]
      exI [of _ EmbedError])
    (simp add: demo_field_simps)

subsection \<open>Fractional pages\<close>

lemma three_halves_fraction: "(3 / 2 :: real) \<notin> \<int>"
proof
  assume "(3 / 2 :: real) \<in> \<int>"
  then obtain z where "(3 / 2 :: real) = real_of_int z" by (rule Ints_cases)
  then have "real_of_int (2 * z) = real_of_int 3" by simp
  then have "2 * z = 3" by (simp only: of_int_eq_iff)
  then show False by presburger
qed

text \<open>
  Claim C10. The coordinates with page 1.5 and otherwise valid bounds pass validation; on a
  document of two pages the index \<open>min (1.5 - 1) (2 - 1) = 0.5\<close> is no page, rendering a radio
  field with these coordinates throws a TypeError, and the request is answered with status 500.
\<close>

theorem fractional_page_validated_not_rendered:
  "validateCoordinates (demo_coordinates (3 / 2)) \<and>
   num_of (js_get (demo_coordinates (3 / 2)) ''page'') \<notin> \<int> \<and>
   page_at 2 (pageIndex (num_of (js_get (demo_coordinates (3 / 2)) ''page'')) 2) = None \<and>
   render_field demo_env JUndefined [[], []] (demo_field ''radio'' JUndefined (3 / 2)) = Inl TypeError \<and>
   sign_pdf demo_env (demo_request JUndefined [demo_field ''radio'' JUndefined (3 / 2)]) =
     (Response 500 (ErrorDetails ''Failed to sign PDF'' TypeError),
      [PathExists ''public/sample.pdf'', ReadFile ''public/sample.pdf''])"
proof -
  let ?f = "demo_field ''radio'' JUndefined (3 / 2)"
  let ?r = "demo_request JUndefined [?f]"
  have v: "validateCoordinates (demo_coordinates (3 / 2))" by (simp add: validateCoordinates_demo)
  have d: "draws JUndefined ?f"
    by (simp add: draws_def demo_field_simps validateCoordinates_truthy v)
  have p: "page_at (length [[], [] :: page])
      (pageIndex (num_of (js_get (js_get ?f ''pdfCoordinates'') ''page'')) (length [[], [] :: page])) = None"
    using page_at_fraction2 by (simp add: demo_field_simps numeral_2_eq_2)
  from render_field_off_page [OF demo_field_simps(1) d p]
  have r: "render_field demo_env JUndefined [[], []] ?f = Inl TypeError" .
  have t: "truthy (js_get (JObj (req_body ?r)) ''pdfId'')"
    unfolding demo_request_simps by simp
  have iv: "invalid_fields [?f] = Inr []"
    unfolding invalid_fields_none by (simp add: demo_field_simps v)
  have rs: "render_fields demo_env (js_get (JObj (req_body ?r)) ''signatureImage'') (replicate 2 []) [?f]
     = Inl TypeError"
    unfolding demo_request_simps using r by (simp add: numeral_2_eq_2 and_then_def)
  from sign_pdf_render_fails [OF t demo_request_simps(2) iv demo_env_simps(1) demo_env_simps(3) rs]
    v r page_at_fraction2 three_halves_fraction
  show ?thesis by (simp add: demo_field_simps)
qed

theorem fractional_page_validated_not_rendered_witness:
  "\<exists>c f. validateCoordinates c \<and> js_get f ''pdfCoordinates'' = c \<and>
     num_of (js_get c ''page'') \<notin> \<int> \<and>
     page_at 2 (pageIndex (num_of (js_get c ''page'')) 2) = None \<and>
     render_field demo_env JUndefined [[], []] f = Inl TypeError"
  using fractional_page_validated_not_rendered demo_field_simps(4) by blast

subsection \<open>Aspect fitting\<close>

lemma wide_height:
  fixes u :: real
  assumes "0 < u" "u < 1" "0 < mw" "0 < mh" "0 < b" "b < r"
    and "mw / mh * (1 - u) \<le> b"
    and "h \<le> mw / r * (1 + u)"
  shows "h \<le> mh * ((1 + u) / (1 - u))"
proof -
  have "mw / r \<le> mw / b"
    using assms(3,5,6) by (simp add: frac_le)
  also have "mw / b \<le> mw / (mw / mh * (1 - u))"
    using assms(1-5,7) by (intro divide_left_mono) (simp_all add: zero_less_mult_iff)
  also have "\<dots> = mh / (1 - u)"
    using assms(3,4) by simp
  finally have "mw / r \<le> mh / (1 - u)" .
  then have "mw / r * (1 + u) \<le> mh / (1 - u) * (1 + u)"
    by (rule mult_right_mono) (simp add: assms(1) less_imp_le)
  with assms(8) show ?thesis by simp
qed

lemma unit_facts:
  fixes u :: real
  assumes "0 < u" "u < 1"
  shows "(1 - u)\<^sup>2 \<le> (1 - u) / (1 + u)" "(1 + u)\<^sup>2 \<le> (1 + u) / (1 - u)"
proof -
  have a: "(1 - u) * (1 + u) \<le> 1"
    by (simp add: algebra_simps)
  have "(1 - u)\<^sup>2 * (1 + u) = (1 - u) * ((1 - u) * (1 + u))"
    by (simp add: power2_eq_square)
  also have "\<dots> \<le> (1 - u) * 1"
    using assms a by (intro mult_left_mono) simp_all
  finally show "(1 - u)\<^sup>2 \<le> (1 - u) / (1 + u)"
    using assms by (simp add: pos_le_divide_eq)
  have "(1 + u)\<^sup>2 * (1 - u) = (1 + u) * ((1 - u) * (1 + u))"
    by (simp add: power2_eq_square)
  also have "\<dots> \<le> (1 + u) * 1"
    using assms a by (intro mult_left_mono) simp_all
  finally show "(1 + u)\<^sup>2 \<le> (1 + u) / (1 - u)"
    using assms by (simp add: pos_le_divide_eq)
qed

lemma wide_ratio:
  fixes u :: real
  assumes "0 < u" "u < 1" "0 < \<rho>" "0 < mw"
    and "\<rho> * (1 - u) \<le> r" "r \<le> \<rho> * (1 + u)"
    and "mw / r * (1 - u) \<le> h" "h \<le> mw / r * (1 + u)"
  shows "0 < h" "\<rho> * (1 - u)\<^sup>2 \<le> mw / h" "mw / h \<le> \<rho> * ((1 + u) / (1 - u))"
proof -
  have r: "0 < r"
    using assms(1,2,3,5) by (intro less_le_trans [OF _ assms(5)]) simp
  have lo: "0 < mw / r * (1 - u)"
    using assms(1,2,4) r by simp
  with assms(7) show h: "0 < h" by simp
  have "\<rho> * (1 - u)\<^sup>2 \<le> \<rho> * ((1 - u) / (1 + u))"
    by (rule mult_left_mono [OF unit_facts(1) [OF assms(1,2)]]) (simp add: assms(3) less_imp_le)
  also have "\<dots> = \<rho> * (1 - u) / (1 + u)" by simp
  also have "\<dots> \<le> r / (1 + u)"
    using assms(1,5) by (simp add: divide_right_mono)
  also have "\<dots> = mw / (mw / r * (1 + u))"
    using assms(4) r by simp
  also have "\<dots> \<le> mw / h"
    using assms(1,4,8) h r by (intro divide_left_mono) (simp_all add: zero_less_mult_iff)
  finally show "\<rho> * (1 - u)\<^sup>2 \<le> mw / h" .
  have "mw / h \<le> mw / (mw / r * (1 - u))"
    using assms(2,4,7) h r by (intro divide_left_mono) (simp_all add: zero_less_mult_iff)
  also have "\<dots> = r / (1 - u)"
    using assms(4) r by simp
  also have "\<dots> \<le> \<rho> * (1 + u) / (1 - u)"
    using assms(2,6) by (simp add: divide_right_mono)
  finally show "mw / h \<le> \<rho> * ((1 + u) / (1 - u))" by simp
qed

lemma tall_width:
  fixes u :: real
  assumes "0 < u" "u < 1" "0 < mw" "0 < mh" "r \<le> b"
    and "b \<le> mw / mh * (1 + u)"
    and "w \<le> mh * r * (1 + u)"
  shows "w \<le> mw * (1 + u)\<^sup>2"
proof -
  from assms(5,6) have "r \<le> mw / mh * (1 + u)" by simp
  then have "mh * r \<le> mh * (mw / mh * (1 + u))"
    using assms(4) by (simp only: mult_le_cancel_left_pos)
  also have "\<dots> = mw * (1 + u)" using assms(4) by simp
  finally have "mh * r * (1 + u) \<le> mw * (1 + u) * (1 + u)"
    using assms(1) by (simp add: mult_right_mono)
  with assms(7) show ?thesis by (simp add: power2_eq_square)
qed

lemma tall_ratio:
  fixes u :: real
  assumes "0 < u" "u < 1" "0 < \<rho>" "0 < mh"
    and "\<rho> * (1 - u) \<le> r" "r \<le> \<rho> * (1 + u)"
    and "mh * r * (1 - u) \<le> w" "w \<le> mh * r * (1 + u)"
  shows "0 < w" "\<rho> * (1 - u)\<^sup>2 \<le> w / mh" "w / mh \<le> \<rho> * ((1 + u) / (1 - u))"
proof -
  have r: "0 < r"
    using assms(1,2,3,5) by (intro less_le_trans [OF _ assms(5)]) simp
  have "0 < mh * r * (1 - u)" using assms(2,4) r by simp
  with assms(7) show "0 < w" by simp
  have "\<rho> * (1 - u)\<^sup>2 = \<rho> * (1 - u) * (1 - u)" by (simp add: power2_eq_square)
  also have "\<dots> \<le> r * (1 - u)"
    using assms(2,5) by (simp add: mult_right_mono)
  also have "\<dots> = mh * r * (1 - u) / mh" using assms(4) by simp
  also have "\<dots> \<le> w / mh"
    by (rule divide_right_mono [OF assms(7)]) (simp add: assms(4) less_imp_le)
  finally show "\<rho> * (1 - u)\<^sup>2 \<le> w / mh" .
  have "w / mh \<le> mh * r * (1 + u) / mh"
    by (rule divide_right_mono [OF assms(8)]) (simp add: assms(4) less_imp_le)
  also have "\<dots> = r * (1 + u)" using assms(4) by simp
  also have "\<dots> \<le> \<rho> * (1 + u) * (1 + u)"
    using assms(1,6) by (simp add: mult_right_mono)
  also have "\<dots> = \<rho> * (1 + u)\<^sup>2" by (simp add: power2_eq_square)
  also have "\<dots> \<le> \<rho> * ((1 + u) / (1 - u))"
    by (rule mult_left_mono [OF unit_facts(2) [OF assms(1,2)]]) (simp add: assms(3) less_imp_le)
  finally show "w / mh \<le> \<rho> * ((1 + u) / (1 - u))" .
qed

lemma binary64_error:
  assumes "\<bar>v\<bar> < 2 ^ 1127"
  shows "\<bar>binary64 v - v\<bar> \<le> \<bar>v\<bar> / 2 ^ 53 + 1 / 2 ^ 1075"
proof -
  have pos: "\<bar>binary64 w - w\<bar> \<le> w / 2 ^ 53 + 1 / 2 ^ 1075" if w: "0 < w" "w < 2 ^ 1127" for w
  proof -
    define q where "q = quantum 1074 1 w"
    from quantum_bounds [OF w] have q: "0 < q" "2 ^ 52 * q \<le> w \<or> q = 1 / 2 ^ 1074"
      by (simp_all add: q_def)
    from q(2) have "q / 2 \<le> w / 2 ^ 53 + 1 / 2 ^ 1075"
    proof
      assume "2 ^ 52 * q \<le> w"
      then have "q / 2 \<le> w / 2 ^ 53" by simp
      then show ?thesis by (rule order_trans) simp
    next
      assume "q = 1 / 2 ^ 1074"
      then have "q / 2 = 1 / 2 ^ 1075" by simp
      with w(1) show ?thesis by simp
    qed
    with binary64_error_pos [OF w] show ?thesis by (simp add: q_def)
  qed
  consider "v = 0" | "0 < v" | "v < 0" by linarith
  then show ?thesis
  proof cases
    case 1
    then show ?thesis by (simp add: binary64_def)
  next
    case 2
    with pos [of v] assms show ?thesis by simp
  next
    case 3
    with pos [of "- v"] assms show ?thesis by (simp add: binary64_minus)
  qed
qed

lemma in_range_pos: "in_range m v \<Longrightarrow> 0 < v"
  unfolding in_range_def by (rule less_le_trans [of _ "1 / 2 ^ m"]) simp_all

lemma in_range_mult:
  assumes "in_range m a" "in_range n b"
  shows "in_range (m + n) (a * b)"
proof -
  from assms have a: "0 < a" and b: "0 < b" by (simp_all add: in_range_pos)
  have "1 / 2 ^ m * (1 / 2 ^ n) \<le> a * b"
    using assms a b by (intro mult_mono) (simp_all add: in_range_def)
  moreover have "a * b \<le> 2 ^ m * 2 ^ n"
    using assms a b by (intro mult_mono) (simp_all add: in_range_def)
  ultimately show ?thesis by (simp add: in_range_def power_add)
qed

lemma in_range_inverse:
  assumes "in_range n b"
  shows "in_range n (1 / b)"
proof -
  from assms have b: "0 < b" by (rule in_range_pos)
  from assms have "1 / 2 ^ n \<le> b" "b \<le> 2 ^ n" by (simp_all add: in_range_def)
  then have "1 / b \<le> 2 ^ n" "1 / 2 ^ n \<le> 1 / b"
    using b by (simp_all add: field_simps)
  then show ?thesis by (simp add: in_range_def)
qed

lemma in_range_div:
  assumes "in_range m a" "in_range n b"
  shows "in_range (m + n) (a / b)"
  using in_range_mult [OF assms(1) in_range_inverse [OF assms(2)]] by simp

lemma in_range_binary64:
  assumes "in_range m v" "m \<le> 1021"
  shows "in_range (Suc m) (binary64 v)"
    and "v * (1 - unit_roundoff) \<le> binary64 v"
    and "binary64 v \<le> v * (1 + unit_roundoff)"
proof -
  from assms(1) have v: "0 < v" by (rule in_range_pos)
  from assms(1) have b: "1 / 2 ^ m \<le> v" "v \<le> 2 ^ m" by (simp_all add: in_range_def)
  have "(2::real) ^ m \<le> 2 ^ 1022" using assms(2) by (intro power_increasing) simp_all
  then have "(1::real) / 2 ^ 1022 \<le> 1 / 2 ^ m"
    by (rule divide_left_mono) simp_all
  then have lo0: "1 / 2 ^ 1022 \<le> v" using b(1) by (rule order_trans)
  have "(2::real) ^ m < 2 ^ 1127" using assms(2) by (intro power_strict_increasing) simp_all
  with b(2) have "v < 2 ^ 1127" by (rule le_less_trans)
  note lo0 this
  note r = binary64_relative [OF this]
  define t where "t = v / 2 ^ 53"
  from abs_le_D1 [OF r] abs_le_D2 [OF r]
  have "v - t \<le> binary64 v" "binary64 v \<le> v + t"
    unfolding t_def [symmetric] by linarith+
  then have e: "v - v / 2 ^ 53 \<le> binary64 v" "binary64 v \<le> v + v / 2 ^ 53"
    by (simp_all add: t_def)
  then show lo: "v * (1 - unit_roundoff) \<le> binary64 v"
    and hi: "binary64 v \<le> v * (1 + unit_roundoff)"
    by (simp_all add: unit_roundoff_def algebra_simps)
  have "v / 2 \<le> v * (1 - unit_roundoff)" "v * (1 + unit_roundoff) \<le> v * 2"
    using v by (simp_all add: unit_roundoff_def)
  with lo hi have "v / 2 \<le> binary64 v" "binary64 v \<le> v * 2" by simp_all
  moreover from assms(1) have "1 / 2 ^ Suc m \<le> v / 2" "v * 2 \<le> 2 ^ Suc m"
    by (simp_all add: in_range_def)
  ultimately show "in_range (Suc m) (binary64 v)" by (simp add: in_range_def)
qed

lemma unit_roundoff_bounds: "0 < unit_roundoff" "unit_roundoff < 1"
  by (simp_all add: unit_roundoff_def)

lemma halved_difference:
  assumes "\<bar>D\<bar> \<le> 2 ^ 1000"
  shows "\<bar>binary64 (binary64 D / 2) - D / 2\<bar> \<le> 2 * unit_roundoff * \<bar>D\<bar> + 1 / 2 ^ 1074"
proof -
  define u where "u = unit_roundoff"
  define \<eta> :: real where "\<eta> = 1 / 2 ^ 1075"
  define t where "t = binary64 D"
  have u: "0 < u" "u < 1" by (simp_all add: u_def unit_roundoff_bounds)
  have \<eta>: "0 \<le> \<eta>" "\<eta> \<le> 1" by (simp_all add: \<eta>_def)
  have big: "(2::real) ^ 1000 + 1 < 2 ^ 1127" by simp
  from assms big have "\<bar>D\<bar> < 2 ^ 1127" by linarith
  from binary64_error [OF this] have B: "\<bar>t - D\<bar> \<le> u * \<bar>D\<bar> + \<eta>"
    by (simp add: t_def u_def \<eta>_def unit_roundoff_def)
  have T: "\<bar>t\<bar> \<le> \<bar>t - D\<bar> + \<bar>D\<bar>" by linarith
  have shrink: "u * a \<le> a" if "0 \<le> a" for a
    using mult_right_mono [of u 1 a] u that by simp
  have uD: "u * \<bar>D\<bar> \<le> \<bar>D\<bar>" "0 \<le> u * \<bar>D\<bar>" using u by (simp_all add: shrink)
  have "\<bar>t / 2\<bar> \<le> 2 ^ 1000 + 1"
    using B T uD(1) \<eta> assms by (simp only: abs_divide) linarith
  with big have "\<bar>t / 2\<bar> < 2 ^ 1127" by linarith
  from binary64_error [OF this] have A: "\<bar>binary64 (t / 2) - t / 2\<bar> \<le> u * \<bar>t\<bar> / 2 + \<eta>"
    by (simp add: u_def \<eta>_def unit_roundoff_def)
  have "u * \<bar>t\<bar> \<le> u * (\<bar>t - D\<bar> + \<bar>D\<bar>)"
    using T u(1) by (simp only: mult_le_cancel_left_pos)
  also have "\<dots> = u * \<bar>t - D\<bar> + u * \<bar>D\<bar>" by (simp add: distrib_left)
  also have "\<dots> \<le> \<bar>t - D\<bar> + u * \<bar>D\<bar>"
    by (simp add: shrink)
  finally have Y: "u * \<bar>t\<bar> \<le> \<bar>t - D\<bar> + u * \<bar>D\<bar>" .
  have "binary64 (t / 2) - D / 2 = (binary64 (t / 2) - t / 2) + (t - D) / 2"
    by (simp add: diff_divide_distrib)
  then have "\<bar>binary64 (t / 2) - D / 2\<bar> \<le> \<bar>binary64 (t / 2) - t / 2\<bar> + \<bar>(t - D) / 2\<bar>"
    by (simp only: abs_triangle_ineq)
  then have "\<bar>binary64 (t / 2) - D / 2\<bar> \<le> \<bar>binary64 (t / 2) - t / 2\<bar> + \<bar>t - D\<bar> / 2"
    by (simp only: abs_divide abs_numeral)
  with A B Y uD(2) have "\<bar>binary64 (t / 2) - D / 2\<bar> \<le> 2 * (u * \<bar>D\<bar>) + 2 * \<eta>"
    by linarith
  then show ?thesis by (simp add: t_def u_def \<eta>_def)
qed


text \<open>
  Claim C4, amended. For an image size and a box size whose four numbers lie between \<open>2^-340\<close>
  and \<open>2^340\<close>, so that no operation leaves the normal range of binary64, and with \<open>u = 2^-53\<close>
  the unit roundoff, the fitted size is positive and one of its sides is the side of the box
  exactly; the image fits in the box up to rounding, \<open>width \<le> maxWidth * (1 + u)\<^sup>2\<close> and
  \<open>height \<le> maxHeight * (1 + u) / (1 - u)\<close>; it keeps the aspect ratio of the image up to
  rounding, \<open>width / height\<close> lying between \<open>imgW / imgH * (1 - u)\<^sup>2\<close> and
  \<open>imgW / imgH * (1 + u) / (1 - u)\<close>; and it is centred up to rounding: \<open>xOffset\<close> is
  \<open>(maxWidth - width) / 2\<close> and \<open>yOffset\<close> is \<open>(maxHeight - height) / 2\<close>, computed in binary64,
  within \<open>2 * u\<close> times the difference and \<open>2^-1074\<close> of the exact quotient.
\<close>

theorem aspect_fit_rounded:
  assumes "in_range 340 iw" "in_range 340 ih" "in_range 340 mw" "in_range 340 mh"
    and "d = calculateImageDimensions \<lparr> img_width = iw, img_height = ih \<rparr> mw mh"
    and "u = unit_roundoff"
  shows "0 < width d \<and> 0 < height d \<and>
         (width d = mw \<or> height d = mh) \<and>
         width d \<le> mw * (1 + u)\<^sup>2 \<and> height d \<le> mh * ((1 + u) / (1 - u)) \<and>
         iw / ih * (1 - u)\<^sup>2 \<le> width d / height d \<and>
         width d / height d \<le> iw / ih * ((1 + u) / (1 - u)) \<and>
         xOffset d = binary64 (binary64 (mw - width d) / 2) \<and>
         yOffset d = binary64 (binary64 (mh - height d) / 2) \<and>
         \<bar>xOffset d - (mw - width d) / 2\<bar> \<le> 2 * u * \<bar>mw - width d\<bar> + 1 / 2 ^ 1074 \<and>
         \<bar>yOffset d - (mh - height d) / 2\<bar> \<le> 2 * u * \<bar>mh - height d\<bar> + 1 / 2 ^ 1074"
proof -
  define \<rho> where "\<rho> = iw / ih"
  define r where "r = binary64 \<rho>"
  define b where "b = binary64 (mw / mh)"
  note u = unit_roundoff_bounds [folded assms(6)]
  have pos: "0 < iw" "0 < ih" "0 < mw" "0 < mh"
    using assms(1-4) by (simp_all add: in_range_pos)
  have \<rho>: "in_range 680 \<rho>" and \<beta>: "in_range 680 (mw / mh)"
    using in_range_div [OF assms(1,2)] in_range_div [OF assms(3,4)] by (simp_all add: \<rho>_def)
  then have \<rho>0: "0 < \<rho>" by (simp add: in_range_pos)
  from in_range_binary64 [OF \<rho>]
  have r: "in_range 681 r" "\<rho> * (1 - u) \<le> r" "r \<le> \<rho> * (1 + u)"
    by (simp_all add: r_def assms(6))
  from in_range_binary64 [OF \<beta>]
  have b: "in_range 681 b" "mw / mh * (1 - u) \<le> b" "b \<le> mw / mh * (1 + u)"
    by (simp_all add: b_def assms(6))
  have r0: "0 < r" and b0: "0 < b" using r(1) b(1) by (simp_all add: in_range_pos)
  have off: "xOffset d = binary64 (binary64 (mw - width d) / 2)"
    "yOffset d = binary64 (binary64 (mh - height d) / 2)"
    by (simp_all add: assms(5) calculateImageDimensions_def Let_def)
  have one: "1 \<le> (1 + u)\<^sup>2" "1 \<le> (1 + u) / (1 - u)"
    using u by (simp_all add: power2_eq_square algebra_simps)
  have main: "0 < width d \<and> 0 < height d \<and>
         (width d = mw \<or> height d = mh) \<and>
         width d \<le> mw * (1 + u)\<^sup>2 \<and> height d \<le> mh * ((1 + u) / (1 - u)) \<and>
         \<rho> * (1 - u)\<^sup>2 \<le> width d / height d \<and>
         width d / height d \<le> \<rho> * ((1 + u) / (1 - u))"
  proof (cases "b < r")
    case True
    then have w: "width d = mw" and h: "height d = binary64 (mw / r)"
      by (simp_all add: assms(5) calculateImageDimensions_def Let_def r_def b_def \<rho>_def)
    have "in_range (340 + 681) (mw / r)" by (rule in_range_div [OF assms(3) r(1)])
    then have "in_range 1021 (mw / r)" by simp
    from in_range_binary64(2,3) [OF this]
    have hb: "mw / r * (1 - u) \<le> height d" "height d \<le> mw / r * (1 + u)"
      by (simp_all add: h assms(6))
    from wide_height [OF u pos(3,4) b0 True b(2) hb(2)]
      wide_ratio [OF u \<rho>0 pos(3) r(2,3) hb]
    have "height d \<le> mh * ((1 + u) / (1 - u))" "0 < height d"
      "\<rho> * (1 - u)\<^sup>2 \<le> mw / height d" "mw / height d \<le> \<rho> * ((1 + u) / (1 - u))" .
    moreover have "mw \<le> mw * (1 + u)\<^sup>2"
      using mult_left_mono [OF one(1), of mw] pos(3) by simp
    ultimately show ?thesis using pos(3) by (simp add: w)
  next
    case False
    then have h: "height d = mh" and w: "width d = binary64 (mh * r)"
      by (simp_all add: assms(5) calculateImageDimensions_def Let_def r_def b_def \<rho>_def)
    from False have rb: "r \<le> b" by simp
    have "in_range (340 + 681) (mh * r)" by (rule in_range_mult [OF assms(4) r(1)])
    then have "in_range 1021 (mh * r)" by simp
    from in_range_binary64(2,3) [OF this]
    have wb: "mh * r * (1 - u) \<le> width d" "width d \<le> mh * r * (1 + u)"
      by (simp_all add: w assms(6))
    from tall_width [OF u pos(3,4) rb b(3) wb(2)]
      tall_ratio [OF u \<rho>0 pos(4) r(2,3) wb]
    have "width d \<le> mw * (1 + u)\<^sup>2" "0 < width d"
      "\<rho> * (1 - u)\<^sup>2 \<le> width d / mh" "width d / mh \<le> \<rho> * ((1 + u) / (1 - u))" .
    moreover have "mh \<le> mh * ((1 + u) / (1 - u))"
      using mult_left_mono [OF one(2), of mh] pos(4) by simp
    ultimately show ?thesis using pos(4) by (simp add: h)
  qed
  have four: "(1 + u)\<^sup>2 \<le> 4" "(1 + u) / (1 - u) \<le> 4"
    by (simp_all add: assms(6) unit_roundoff_def power2_eq_square)
  define M :: real where "M = 2 ^ 340"
  have M: "5 * M \<le> 2 ^ 1000" by (simp add: M_def)
  have m: "mw \<le> M" "mh \<le> M"
    using assms(3,4) by (simp_all add: in_range_def M_def)
  from main have wh: "0 < width d" "0 < height d" "width d \<le> mw * (1 + u)\<^sup>2"
    "height d \<le> mh * ((1 + u) / (1 - u))" by blast+
  have "mw * (1 + u)\<^sup>2 \<le> mw * 4"
    by (rule mult_left_mono [OF four(1)]) (simp add: pos(3) less_imp_le)
  with wh(1,3) m(1) pos(3) have "\<bar>mw - width d\<bar> \<le> 5 * M" by linarith
  then have wD: "\<bar>mw - width d\<bar> \<le> 2 ^ 1000" using M by (rule order_trans)
  have "mh * ((1 + u) / (1 - u)) \<le> mh * 4"
    by (rule mult_left_mono [OF four(2)]) (simp add: pos(4) less_imp_le)
  with wh(2,4) m(2) pos(4) have "\<bar>mh - height d\<bar> \<le> 5 * M" by linarith
  then have hD: "\<bar>mh - height d\<bar> \<le> 2 ^ 1000" using M by (rule order_trans)
  have "\<bar>xOffset d - (mw - width d) / 2\<bar> \<le> 2 * u * \<bar>mw - width d\<bar> + 1 / 2 ^ 1074"
    "\<bar>yOffset d - (mh - height d) / 2\<bar> \<le> 2 * u * \<bar>mh - height d\<bar> + 1 / 2 ^ 1074"
    unfolding off assms(6) by (rule halved_difference [OF wD], rule halved_difference [OF hD])
  with main off show ?thesis unfolding \<rho>_def by blast
qed

theorem aspect_fit_rounded_witness:
  "calculateImageDimensions \<lparr> img_width = 200, img_height = 100 \<rparr> 100 20
     = \<lparr> width = 40, height = 20, xOffset = 30, yOffset = 0 \<rparr> \<and>
   (40 :: real) \<le> 100 * (1 + unit_roundoff)\<^sup>2 \<and>
   (20 :: real) \<le> 20 * ((1 + unit_roundoff) / (1 - unit_roundoff)) \<and>
   200 / 100 * (1 - unit_roundoff)\<^sup>2 \<le> (40 :: real) / 20 \<and>
   (40 :: real) / 20 \<le> 200 / 100 * ((1 + unit_roundoff) / (1 - unit_roundoff))"
proof -
  have d1: "\<lparr> width = 40, height = 20, xOffset = 30, yOffset = 0 \<rparr>
      = calculateImageDimensions \<lparr> img_width = 200, img_height = 100 \<rparr> 100 20"
    by (simp add: calculateImageDimensions_def Let_def binary64_exact)
  have r: "in_range 340 200" "in_range 340 100" "in_range 340 20"
    by (simp_all add: in_range_def)
  from aspect_fit_rounded [OF r(1) r(2) r(2) r(3) d1 refl]
  show ?thesis by (simp add: d1 [symmetric] binary64_exact)
qed

lemma binary64_ratio: "binary64 (7 / 25) = 5044031582654956 / 2 ^ 54"
  by code_simp

lemma binary64_product: "binary64 (25 * (5044031582654956 / 2 ^ 54)) = 7 + 1 / 2 ^ 50"
  by code_simp

text \<open>
  Claim C4 as stated, with \<open>width \<le> maxWidth\<close>, fails: for an image of 7 by 25 in a box of 7
  by 25 the quotient \<open>7 / 25\<close> is rounded up, and \<open>25 * (7 / 25)\<close> is rounded to the double above
  7.
\<close>

theorem aspect_fit_overshoots_in_binary64:
  "width (calculateImageDimensions \<lparr> img_width = 7, img_height = 25 \<rparr> 7 25)
     = 7 + 1 / 2 ^ 50 \<and>
   \<not> width (calculateImageDimensions \<lparr> img_width = 7, img_height = 25 \<rparr> 7 25) \<le> 7"
proof -
  have "width (calculateImageDimensions \<lparr> img_width = 7, img_height = 25 \<rparr> 7 25)
    = binary64 (25 * binary64 (7 / 25))"
    by (simp add: calculateImageDimensions_def Let_def)
  also have "\<dots> = 7 + 1 / 2 ^ 50"
    by (simp only: binary64_ratio binary64_product)
  finally show ?thesis by simp
qed

end
